theory Spec2Isabelle
  imports Main "HOL-Library.Word"
begin

unbundle bit_operations_syntax

section \<open>Values of the host language\<close>

text \<open>
  The wallet library is a single TypeScript module, \<^verbatim>\<open>gliesereum.ts\<close>. Its functions move
  data between three kinds of value, which the model keeps apart:
  \<^item> a \<^verbatim>\<open>Buffer\<close> or \<^verbatim>\<open>Uint8Array\<close> is a list of bytes;
  \<^item> a JavaScript string is a list of 16-bit code units, so that unpaired surrogates exist;
  \<^item> a JavaScript \<^verbatim>\<open>number\<close> is an IEEE-754 double. Every number the module computes is
    a non-negative integer or \<^verbatim>\<open>NaN\<close>, and only those are represented.

  A function that can throw returns \<open>error + 'a\<close>, with \<open>Inl\<close> for the exception.
\<close>

type_synonym byte = "8 word"
type_synonym js_string = "16 word list"

datatype error = URIError | Error string

datatype number = NaN | Number nat

text \<open>A string literal of the source, as code units.\<close>

definition js :: "string \<Rightarrow> js_string" where
  "js s = map (\<lambda>c. of_nat (of_char c)) s"

section \<open>Arithmetic on doubles\<close>

text \<open>
  \<open>to_double n\<close> is the double nearest to the integer \<open>n\<close>, ties to even: the value of
  \<^verbatim>\<open>Number(n)\<close>. A double carries 53 significant bits; the bits of \<open>n\<close> beyond them are
  rounded away. (Overflow to infinity starts near \<open>2 ^ 1024\<close> and is not represented.)
\<close>

fun bit_length :: "nat \<Rightarrow> nat" where
  "bit_length n = (if n = 0 then 0 else Suc (bit_length (n div 2)))"

declare bit_length.simps [simp del]

definition to_double :: "nat \<Rightarrow> nat" where
  "to_double n =
     (let e = bit_length n - 53; q = n div 2 ^ e; r = n mod 2 ^ e
      in if e = 0 then n
         else if 2 ^ (e - 1) < r \<or> (r = 2 ^ (e - 1) \<and> odd q) then (q + 1) * 2 ^ e
         else q * 2 ^ e)"

text \<open>\<^verbatim>\<open>a % b\<close> and \<^verbatim>\<open>a + b\<close> on such numbers. The remainder of two doubles is exact.\<close>

fun js_mod :: "number \<Rightarrow> number \<Rightarrow> number" where
  "js_mod (Number a) (Number b) = (if b = 0 then NaN else Number (a mod b))"
| "js_mod a b = NaN"

fun js_add :: "number \<Rightarrow> number \<Rightarrow> number" where
  "js_add (Number a) (Number b) = Number (to_double (a + b))"
| "js_add a b = NaN"

section \<open>The hash primitives\<close>

text \<open>
  Modelled from the spec: the SHA-256 and RIPEMD-160 primitives. The module imports them
  from \<^verbatim>\<open>crypto-js\<close> and \<^verbatim>\<open>@noble/hashes\<close>, and the spec takes them as trusted
  primitives with their well-known semantics (FIPS 180-4 and the RIPEMD-160 definition of
  Dobbertin, Bosselaers and Preneel). Words are natural numbers below \<open>2 ^ 32\<close> with the
  wrap-around written out.
\<close>

definition add32 :: "nat \<Rightarrow> nat \<Rightarrow> nat" where
  "add32 a b = (a + b) mod 4294967296"

definition rotr32 :: "nat \<Rightarrow> nat \<Rightarrow> nat" where
  "rotr32 n x = x div 2 ^ n + (x mod 2 ^ n) * 2 ^ (32 - n)"

definition rotl32 :: "nat \<Rightarrow> nat \<Rightarrow> nat" where
  "rotl32 n x = (x mod 2 ^ (32 - n)) * 2 ^ n + x div 2 ^ (32 - n)"

definition not32 :: "nat \<Rightarrow> nat" where
  "not32 x = 4294967295 - x"

fun be_words :: "nat list \<Rightarrow> nat list" where
  "be_words (a # b # c # d # xs) = (((a * 256 + b) * 256 + c) * 256 + d) # be_words xs"
| "be_words xs = []"

fun le_words :: "nat list \<Rightarrow> nat list" where
  "le_words (a # b # c # d # xs) = (((d * 256 + c) * 256 + b) * 256 + a) # le_words xs"
| "le_words xs = []"

fun blocks16 :: "nat list \<Rightarrow> nat list list" where
  "blocks16 (x0 # x1 # x2 # x3 # x4 # x5 # x6 # x7 # x8 # x9 # x10 # x11 # x12 # x13 # x14 # x15 # xs) =
     [x0, x1, x2, x3, x4, x5, x6, x7, x8, x9, x10, x11, x12, x13, x14, x15] # blocks16 xs"
| "blocks16 xs = []"

definition le_bytes :: "nat \<Rightarrow> nat \<Rightarrow> nat list" where
  "le_bytes k n = map (\<lambda>i. (n div 256 ^ i) mod 256) [0..<k]"

definition be_bytes :: "nat \<Rightarrow> nat \<Rightarrow> nat list" where
  "be_bytes k n = rev (le_bytes k n)"

text \<open>Both hashes pad a message of \<open>len\<close> bytes with a one bit, \<open>pad_zeros len\<close> zero bytes
  and the bit length in eight bytes, to a multiple of 64 bytes.\<close>

definition pad_zeros :: "nat \<Rightarrow> nat" where
  "pad_zeros len = (119 - len mod 64) mod 64"

subsection \<open>SHA-256\<close>

definition sha_ch :: "nat \<Rightarrow> nat \<Rightarrow> nat \<Rightarrow> nat" where
  "sha_ch e f g = (e AND f) XOR (not32 e AND g)"

definition sha_maj :: "nat \<Rightarrow> nat \<Rightarrow> nat \<Rightarrow> nat" where
  "sha_maj a b c = (a AND b) XOR (a AND c) XOR (b AND c)"

definition Sigma0 :: "nat \<Rightarrow> nat" where
  "Sigma0 x = rotr32 2 x XOR rotr32 13 x XOR rotr32 22 x"

definition Sigma1 :: "nat \<Rightarrow> nat" where
  "Sigma1 x = rotr32 6 x XOR rotr32 11 x XOR rotr32 25 x"

definition sigma0 :: "nat \<Rightarrow> nat" where
  "sigma0 x = rotr32 7 x XOR rotr32 18 x XOR x div 2 ^ 3"

definition sigma1 :: "nat \<Rightarrow> nat" where
  "sigma1 x = rotr32 17 x XOR rotr32 19 x XOR x div 2 ^ 10"

text \<open>The round constants and the initial state, in decimal.\<close>

definition K256 :: "nat list" where
  "K256 =
    [1116352408, 1899447441, 3049323471, 3921009573, 961987163, 1508970993,
     2453635748, 2870763221, 3624381080, 310598401, 607225278, 1426881987,
     1925078388, 2162078206, 2614888103, 3248222580, 3835390401, 4022224774,
     264347078, 604807628, 770255983, 1249150122, 1555081692, 1996064986,
     2554220882, 2821834349, 2952996808, 3210313671, 3336571891, 3584528711,
     113926993, 338241895, 666307205, 773529912, 1294757372, 1396182291,
     1695183700, 1986661051, 2177026350, 2456956037, 2730485921, 2820302411,
     3259730800, 3345764771, 3516065817, 3600352804, 4094571909, 275423344,
     430227734, 506948616, 659060556, 883997877, 958139571, 1322822218,
     1537002063, 1747873779, 1955562222, 2024104815, 2227730452, 2361852424,
     2428436474, 2756734187, 3204031479, 3329325298]"

definition H256 :: "nat list" where
  "H256 =
    [1779033703, 3144134277, 1013904242, 2773480762,
     1359893119, 2600822924, 528734635, 1541459225]"

text \<open>The message schedule is kept as a window of the last sixteen words: \<open>w ! 0\<close> is the
  word of the current round, \<open>next_w w\<close> the word sixteen rounds later.\<close>

definition next_w :: "nat list \<Rightarrow> nat" where
  "next_w w = add32 (add32 (sigma1 (w ! 14)) (w ! 9)) (add32 (sigma0 (w ! 1)) (w ! 0))"

fun sha256_rounds :: "nat list \<Rightarrow> nat list \<Rightarrow> nat list \<Rightarrow> nat list" where
  "sha256_rounds [] w st = st"
| "sha256_rounds (k # ks) w [a, b, c, d, e, f, g, h] =
     (let t1 = add32 (add32 (add32 h (Sigma1 e)) (add32 (sha_ch e f g) k)) (w ! 0);
          t2 = add32 (Sigma0 a) (sha_maj a b c)
      in sha256_rounds ks (tl w @ [next_w w]) [add32 t1 t2, a, b, c, add32 d t1, e, f, g])"
| "sha256_rounds (k # ks) w st = st"

definition sha256_compress :: "nat list \<Rightarrow> nat list \<Rightarrow> nat list" where
  "sha256_compress st w = map2 add32 st (sha256_rounds K256 w st)"

definition sha256_pad :: "nat list \<Rightarrow> nat list" where
  "sha256_pad m = m @ [128] @ replicate (pad_zeros (length m)) 0 @ be_bytes 8 (8 * length m)"

definition sha256_nat :: "nat list \<Rightarrow> nat list" where
  "sha256_nat m =
     concat (map (be_bytes 4) (foldl sha256_compress H256 (blocks16 (be_words (sha256_pad m)))))"

definition sha256 :: "byte list \<Rightarrow> byte list" where
  "sha256 bs = map of_nat (sha256_nat (map unat bs))"

subsection \<open>RIPEMD-160\<close>

definition rmd_f1 :: "nat \<Rightarrow> nat \<Rightarrow> nat \<Rightarrow> nat" where
  "rmd_f1 x y z = x XOR y XOR z"

definition rmd_f2 :: "nat \<Rightarrow> nat \<Rightarrow> nat \<Rightarrow> nat" where
  "rmd_f2 x y z = (x AND y) OR (not32 x AND z)"

definition rmd_f3 :: "nat \<Rightarrow> nat \<Rightarrow> nat \<Rightarrow> nat" where
  "rmd_f3 x y z = (x OR not32 y) XOR z"

definition rmd_f4 :: "nat \<Rightarrow> nat \<Rightarrow> nat \<Rightarrow> nat" where
  "rmd_f4 x y z = (x AND z) OR (y AND not32 z)"

definition rmd_f5 :: "nat \<Rightarrow> nat \<Rightarrow> nat \<Rightarrow> nat" where
  "rmd_f5 x y z = x XOR (y OR not32 z)"

text \<open>Sixteen steps of one line, with round function \<open>f\<close> and constant \<open>k\<close>; each step names
  the message word it reads and the amount it rotates by.\<close>

fun rmd_steps ::
  "(nat \<Rightarrow> nat \<Rightarrow> nat \<Rightarrow> nat) \<Rightarrow> nat \<Rightarrow> nat list \<Rightarrow> (nat \<times> nat) list \<Rightarrow> nat list \<Rightarrow> nat list" where
  "rmd_steps f k x [] st = st"
| "rmd_steps f k x ((r, s) # rss) [a, b, c, d, e] =
     rmd_steps f k x rss
       [e, add32 (rotl32 s (add32 (add32 a (f b c d)) (add32 (x ! r) k))) e, b, rotl32 10 c, d]"
| "rmd_steps f k x rss st = st"

definition rmd_left :: "(nat \<times> nat) list list" where
  "rmd_left = [
    [(0,11),(1,14),(2,15),(3,12),(4,5),(5,8),(6,7),(7,9),(8,11),(9,13),(10,14),(11,15),(12,6),(13,7),(14,9),(15,8)],
    [(7,7),(4,6),(13,8),(1,13),(10,11),(6,9),(15,7),(3,15),(12,7),(0,12),(9,15),(5,9),(2,11),(14,7),(11,13),(8,12)],
    [(3,11),(10,13),(14,6),(4,7),(9,14),(15,9),(8,13),(1,15),(2,14),(7,8),(0,13),(6,6),(13,5),(11,12),(5,7),(12,5)],
    [(1,11),(9,12),(11,14),(10,15),(0,14),(8,15),(12,9),(4,8),(13,9),(3,14),(7,5),(15,6),(14,8),(5,6),(6,5),(2,12)],
    [(4,9),(0,15),(5,5),(9,11),(7,6),(12,8),(2,13),(10,12),(14,5),(1,12),(3,13),(8,14),(11,11),(6,8),(15,5),(13,6)]]"

definition rmd_right :: "(nat \<times> nat) list list" where
  "rmd_right = [
    [(5,8),(14,9),(7,9),(0,11),(9,13),(2,15),(11,15),(4,5),(13,7),(6,7),(15,8),(8,11),(1,14),(10,14),(3,12),(12,6)],
    [(6,9),(11,13),(3,15),(7,7),(0,12),(13,8),(5,9),(10,11),(14,7),(15,7),(8,12),(12,7),(4,6),(9,15),(1,13),(2,11)],
    [(15,9),(5,7),(1,15),(3,11),(7,8),(14,6),(6,6),(9,14),(11,12),(8,13),(12,5),(2,14),(10,13),(0,13),(4,7),(13,5)],
    [(8,15),(6,5),(4,8),(1,11),(3,14),(11,14),(15,6),(0,14),(5,6),(12,9),(2,12),(13,9),(9,12),(7,5),(10,15),(14,8)],
    [(12,8),(15,5),(10,12),(4,9),(1,12),(5,5),(8,14),(7,6),(6,8),(2,13),(13,6),(14,5),(0,15),(3,13),(9,11),(11,11)]]"

definition rmd_line_left :: "nat list \<Rightarrow> nat list \<Rightarrow> nat list" where
  "rmd_line_left x st =
     rmd_steps rmd_f5 0xA953FD4E x (rmd_left ! 4)
      (rmd_steps rmd_f4 0x8F1BBCDC x (rmd_left ! 3)
       (rmd_steps rmd_f3 0x6ED9EBA1 x (rmd_left ! 2)
        (rmd_steps rmd_f2 0x5A827999 x (rmd_left ! 1)
         (rmd_steps rmd_f1 0 x (rmd_left ! 0) st))))"

definition rmd_line_right :: "nat list \<Rightarrow> nat list \<Rightarrow> nat list" where
  "rmd_line_right x st =
     rmd_steps rmd_f1 0 x (rmd_right ! 4)
      (rmd_steps rmd_f2 0x7A6D76E9 x (rmd_right ! 3)
       (rmd_steps rmd_f3 0x6D703EF3 x (rmd_right ! 2)
        (rmd_steps rmd_f4 0x5C4DD124 x (rmd_right ! 1)
         (rmd_steps rmd_f5 0x50A28BE6 x (rmd_right ! 0) st))))"

fun rmd_combine :: "nat list \<Rightarrow> nat list \<Rightarrow> nat list \<Rightarrow> nat list" where
  "rmd_combine [h0, h1, h2, h3, h4] [a, b, c, d, e] [a', b', c', d', e'] =
     [add32 (add32 h1 c) d', add32 (add32 h2 d) e', add32 (add32 h3 e) a',
      add32 (add32 h4 a) b', add32 (add32 h0 b) c']"
| "rmd_combine h l r = h"

definition rmd_compress :: "nat list \<Rightarrow> nat list \<Rightarrow> nat list" where
  "rmd_compress h x = rmd_combine h (rmd_line_left x h) (rmd_line_right x h)"

definition rmd_init :: "nat list" where
  "rmd_init = [0x67452301, 0xEFCDAB89, 0x98BADCFE, 0x10325476, 0xC3D2E1F0]"

definition rmd_pad :: "nat list \<Rightarrow> nat list" where
  "rmd_pad m = m @ [128] @ replicate (pad_zeros (length m)) 0 @ le_bytes 8 (8 * length m)"

definition ripemd160_nat :: "nat list \<Rightarrow> nat list" where
  "ripemd160_nat m =
     concat (map (le_bytes 4) (foldl rmd_compress rmd_init (blocks16 (le_words (rmd_pad m)))))"

definition ripemd160 :: "byte list \<Rightarrow> byte list" where
  "ripemd160 bs = map of_nat (ripemd160_nat (map unat bs))"

section \<open>Text encodings\<close>

subsection \<open>Decoding bytes as UTF-8: \<^verbatim>\<open>buffer.toString('utf8')\<close>\<close>

text \<open>
  Modelled from the spec: the text encodings of the platform (\<^verbatim>\<open>Buffer\<close> and
  \<^verbatim>\<open>crypto-js\<close>), which the spec names only as "a text form" of the bytes.

  A byte sequence that is not valid UTF-8 still decodes: every maximal ill-formed part
  becomes the replacement character U+FFFD, and the byte that ended it is read again. A
  code point beyond U+FFFF becomes a surrogate pair.
\<close>

definition is_cont :: "byte \<Rightarrow> bool" where
  "is_cont c = (0x80 \<le> c \<and> c \<le> 0xBF)"

definition second_ok :: "byte \<Rightarrow> byte \<Rightarrow> bool" where
  "second_ok b c =
     ((if b = 0xE0 then 0xA0 else if b = 0xF0 then 0x90 else 0x80) \<le> c \<and>
      c \<le> (if b = 0xED then 0x9F else if b = 0xF4 then 0x8F else 0xBF))"

definition low6 :: "byte \<Rightarrow> nat" where
  "low6 c = unat c mod 64"

definition utf16_units :: "nat \<Rightarrow> js_string" where
  "utf16_units cp =
     (if cp < 0x10000 then [of_nat cp]
      else [of_nat (0xD800 + (cp - 0x10000) div 1024), of_nat (0xDC00 + (cp - 0x10000) mod 1024)])"

fun Buffer_toString_utf8 :: "byte list \<Rightarrow> js_string" where
  "Buffer_toString_utf8 [] = []"
| "Buffer_toString_utf8 (b # bs) =
     (if b < 0x80 then of_nat (unat b) # Buffer_toString_utf8 bs
      else if 0xC2 \<le> b \<and> b \<le> 0xDF then
        (case bs of
           [] \<Rightarrow> [0xFFFD]
         | c # cs \<Rightarrow>
             if is_cont c
             then utf16_units (unat b mod 32 * 64 + low6 c) @ Buffer_toString_utf8 cs
             else 0xFFFD # Buffer_toString_utf8 bs)
      else if 0xE0 \<le> b \<and> b \<le> 0xEF then
        (case bs of
           [] \<Rightarrow> [0xFFFD]
         | c # cs \<Rightarrow>
             if second_ok b c
             then (case cs of
                     [] \<Rightarrow> [0xFFFD]
                   | d # ds \<Rightarrow>
                       if is_cont d
                       then utf16_units (unat b mod 16 * 4096 + low6 c * 64 + low6 d)
                              @ Buffer_toString_utf8 ds
                       else 0xFFFD # Buffer_toString_utf8 cs)
             else 0xFFFD # Buffer_toString_utf8 bs)
      else if 0xF0 \<le> b \<and> b \<le> 0xF4 then
        (case bs of
           [] \<Rightarrow> [0xFFFD]
         | c # cs \<Rightarrow>
             if second_ok b c
             then (case cs of
                     [] \<Rightarrow> [0xFFFD]
                   | d # ds \<Rightarrow>
                       if is_cont d
                       then (case ds of
                               [] \<Rightarrow> [0xFFFD]
                             | e # es \<Rightarrow>
                                 if is_cont e
                                 then utf16_units (unat b mod 8 * 262144 + low6 c * 4096
                                                     + low6 d * 64 + low6 e)
                                        @ Buffer_toString_utf8 es
                                 else 0xFFFD # Buffer_toString_utf8 ds)
                       else 0xFFFD # Buffer_toString_utf8 cs)
             else 0xFFFD # Buffer_toString_utf8 bs)
      else 0xFFFD # Buffer_toString_utf8 bs)"

subsection \<open>Encoding a string as UTF-8\<close>

definition is_high :: "16 word \<Rightarrow> bool" where
  "is_high u = (0xD800 \<le> u \<and> u \<le> 0xDBFF)"

definition is_low :: "16 word \<Rightarrow> bool" where
  "is_low u = (0xDC00 \<le> u \<and> u \<le> 0xDFFF)"

definition pair_point :: "16 word \<Rightarrow> 16 word \<Rightarrow> nat" where
  "pair_point u v = 0x10000 + (unat u - 0xD800) * 1024 + (unat v - 0xDC00)"

definition utf8_bytes :: "nat \<Rightarrow> byte list" where
  "utf8_bytes cp =
     map of_nat
       (if cp < 0x80 then [cp]
        else if cp < 0x800 then [0xC0 + cp div 64, 0x80 + cp mod 64]
        else if cp < 0x10000 then [0xE0 + cp div 4096, 0x80 + cp div 64 mod 64, 0x80 + cp mod 64]
        else [0xF0 + cp div 262144, 0x80 + cp div 4096 mod 64, 0x80 + cp div 64 mod 64,
              0x80 + cp mod 64])"

text \<open>
  \<^verbatim>\<open>CryptoJS.enc.Utf8.parse\<close>, which crypto-js applies to a string message before hashing:
  it goes through \<^verbatim>\<open>encodeURIComponent\<close>, which throws \<^verbatim>\<open>URIError\<close> on an unpaired
  surrogate.
\<close>

fun Utf8_parse :: "js_string \<Rightarrow> error + byte list" where
  "Utf8_parse [] = Inr []"
| "Utf8_parse (u # us) =
     (if is_low u then Inl URIError
      else if is_high u then
        (case us of
           [] \<Rightarrow> Inl URIError
         | v # vs \<Rightarrow>
             if is_low v
             then (case Utf8_parse vs of
                     Inl e \<Rightarrow> Inl e
                   | Inr rest \<Rightarrow> Inr (utf8_bytes (pair_point u v) @ rest))
             else Inl URIError)
      else (case Utf8_parse us of
              Inl e \<Rightarrow> Inl e
            | Inr rest \<Rightarrow> Inr (utf8_bytes (unat u) @ rest)))"

text \<open>\<^verbatim>\<open>Buffer.from(s, 'utf8')\<close> never throws: an unpaired surrogate is written as the bytes
  of U+FFFD.\<close>

fun Buffer_from_utf8 :: "js_string \<Rightarrow> byte list" where
  "Buffer_from_utf8 [] = []"
| "Buffer_from_utf8 (u # us) =
     (if is_low u then [0xEF, 0xBF, 0xBD] @ Buffer_from_utf8 us
      else if is_high u then
        (case us of
           [] \<Rightarrow> [0xEF, 0xBF, 0xBD]
         | v # vs \<Rightarrow>
             if is_low v then utf8_bytes (pair_point u v) @ Buffer_from_utf8 vs
             else [0xEF, 0xBF, 0xBD] @ Buffer_from_utf8 us)
      else utf8_bytes (unat u) @ Buffer_from_utf8 us)"

subsection \<open>Hexadecimal\<close>

text \<open>\<^verbatim>\<open>wordArray.toString()\<close> of crypto-js writes each byte as two lower-case hex digits.\<close>

definition hex_char :: "nat \<Rightarrow> 16 word" where
  "hex_char d = of_nat (if d < 10 then 48 + d else 87 + d)"

definition Hex_stringify :: "byte list \<Rightarrow> js_string" where
  "Hex_stringify bs = concat (map (\<lambda>b. [hex_char (unat b div 16), hex_char (unat b mod 16)]) bs)"

definition hex_value :: "16 word \<Rightarrow> nat option" where
  "hex_value c =
     (if 48 \<le> unat c \<and> unat c \<le> 57 then Some (unat c - 48)
      else if 97 \<le> unat c \<and> unat c \<le> 102 then Some (unat c - 87)
      else if 65 \<le> unat c \<and> unat c \<le> 70 then Some (unat c - 55)
      else None)"

fun hex_prefix :: "js_string \<Rightarrow> nat list" where
  "hex_prefix [] = []"
| "hex_prefix (c # cs) = (case hex_value c of None \<Rightarrow> [] | Some d \<Rightarrow> d # hex_prefix cs)"

definition from_base :: "nat \<Rightarrow> nat list \<Rightarrow> nat" where
  "from_base b ds = foldl (\<lambda>a d. a * b + d) 0 ds"

text \<open>
  \<^verbatim>\<open>parseInt(s, 16)\<close> on a string that starts with hex digits: the digits up to the first
  other character give an exact integer, which is then rounded to a double. With no digit
  the result is \<^verbatim>\<open>NaN\<close>. (White space, a sign and a \<^verbatim>\<open>0x\<close> prefix, which a hex digest
  never has, are not represented.)
\<close>

definition parseInt_hex :: "js_string \<Rightarrow> number" where
  "parseInt_hex s =
     (case hex_prefix s of [] \<Rightarrow> NaN | d # ds \<Rightarrow> Number (to_double (from_base 16 (d # ds))))"

text \<open>\<^verbatim>\<open>Buffer.from(s, 'hex')\<close> reads pairs of hex digits and stops at the first pair that is
  not one.\<close>

fun Buffer_from_hex :: "js_string \<Rightarrow> byte list" where
  "Buffer_from_hex (a # b # cs) =
     (case hex_value a of
        None \<Rightarrow> []
      | Some x \<Rightarrow> (case hex_value b of
                     None \<Rightarrow> []
                   | Some y \<Rightarrow> of_nat (x * 16 + y) # Buffer_from_hex cs))"
| "Buffer_from_hex cs = []"

subsection \<open>Base58: the \<^verbatim>\<open>bs58\<close> codec\<close>

text \<open>
  Modelled from the spec: the Base58 text codec, an external collaborator of the module.
  \<^verbatim>\<open>bs58\<close> is \<^verbatim>\<open>base-x\<close> over the Bitcoin alphabet. Encoding writes one leader character
  per leading zero byte and then the remaining bytes, read as one big-endian number, in
  base 58. Decoding inverts it; the empty string decodes to the empty buffer, and a
  character outside the alphabet makes \<^verbatim>\<open>decode\<close> throw
  \<^verbatim>\<open>Error('Non-base58 character')\<close>. (A code unit above 255 is rejected like any other
  character, as \<^verbatim>\<open>base-x\<close> does from its versions 3.0.11, 4.0.1 and 5.0.1 on; the theorems
  about rejected input are stated for code units below 256, which every version rejects.)
\<close>

definition ALPHABET :: js_string where
  "ALPHABET = js ''123456789ABCDEFGHJKLMNPQRSTUVWXYZabcdefghijkmnopqrstuvwxyz''"

definition LEADER :: "16 word" where
  "LEADER = ALPHABET ! 0"

fun index_of :: "'a \<Rightarrow> 'a list \<Rightarrow> nat option" where
  "index_of x [] = None"
| "index_of x (y # ys) = (if x = y then Some 0 else map_option Suc (index_of x ys))"

fun to_base :: "nat \<Rightarrow> nat \<Rightarrow> nat list" where
  "to_base b n = (if n = 0 \<or> b < 2 then [] else to_base b (n div b) @ [n mod b])"

declare to_base.simps [simp del]

fun b58_digits :: "js_string \<Rightarrow> nat list option" where
  "b58_digits [] = Some []"
| "b58_digits (c # cs) =
     (case index_of c ALPHABET of
        None \<Rightarrow> None
      | Some d \<Rightarrow> map_option (Cons d) (b58_digits cs))"

definition bs58_encode :: "byte list \<Rightarrow> js_string" where
  "bs58_encode source =
     (let zeroes = length (takeWhile (\<lambda>b. b = 0) source);
          digits = to_base 58 (from_base 256 (map unat (dropWhile (\<lambda>b. b = 0) source)))
      in replicate zeroes LEADER @ map (\<lambda>d. ALPHABET ! d) digits)"

definition bs58_decode :: "js_string \<Rightarrow> error + byte list" where
  "bs58_decode source =
     (if source = [] then Inr []
      else case b58_digits source of
             None \<Rightarrow> Inl (Error ''Non-base58 character'')
           | Some digits \<Rightarrow>
               (let zeroes = length (takeWhile (\<lambda>c. c = LEADER) source)
                in Inr (replicate zeroes 0 @ map of_nat (to_base 256 (from_base 58 digits)))))"

section \<open>Buffers\<close>

text \<open>
  \<^verbatim>\<open>buf.slice(start, end)\<close>: a negative index counts from the end, and both indices are
  clamped to the buffer. \<^verbatim>\<open>buf[0]\<close> of an empty buffer is \<^verbatim>\<open>undefined\<close>, and
  \<^verbatim>\<open>Buffer.from([undefined])\<close> is the single byte 0.
\<close>

definition rel_index :: "int \<Rightarrow> nat \<Rightarrow> nat" where
  "rel_index i len = (if i < 0 then nat (max (int len + i) 0) else min (nat i) len)"

definition Buffer_slice :: "int \<Rightarrow> int \<Rightarrow> 'a list \<Rightarrow> 'a list" where
  "Buffer_slice start end xs =
     take (rel_index end (length xs) - rel_index start (length xs))
       (drop (rel_index start (length xs)) xs)"

definition Buffer_slice_from :: "int \<Rightarrow> 'a list \<Rightarrow> 'a list" where
  "Buffer_slice_from start xs = drop (rel_index start (length xs)) xs"

definition Buffer_index :: "'a list \<Rightarrow> nat \<Rightarrow> 'a option" where
  "Buffer_index xs i = (if i < length xs then Some (xs ! i) else None)"

definition Buffer_from_array :: "byte option list \<Rightarrow> byte list" where
  "Buffer_from_array vs = map (\<lambda>v. case v of None \<Rightarrow> 0 | Some b \<Rightarrow> b) vs"

fun Buffer_compare :: "byte list \<Rightarrow> byte list \<Rightarrow> int" where
  "Buffer_compare [] [] = 0"
| "Buffer_compare [] (y # ys) = - 1"
| "Buffer_compare (x # xs) [] = 1"
| "Buffer_compare (x # xs) (y # ys) =
     (if x < y then - 1 else if y < x then 1 else Buffer_compare xs ys)"

section \<open>The elliptic-curve library\<close>


record signature =
  sig_r :: nat
  sig_s :: nat
  recoveryParam :: "int option"

record ('kp, 'pt) elliptic =
  EC_keyFromPrivate :: "js_string \<Rightarrow> error + 'kp"
  EC_recoverPubKey :: "js_string \<Rightarrow> signature \<Rightarrow> int \<Rightarrow> error + 'pt"
  EC_verify :: "js_string \<Rightarrow> signature \<Rightarrow> byte list \<Rightarrow> error + bool"
  pair_getPublic :: "'kp \<Rightarrow> error + 'pt"
  pair_getPublic_hex :: "'kp \<Rightarrow> error + js_string"
  pair_getPrivate_hex :: "'kp \<Rightarrow> error + js_string"
  point_encode_compressed :: "'pt \<Rightarrow> error + byte list"
  point_encodeCompressed_hex :: "'pt \<Rightarrow> error + js_string"

text \<open>
  Two stand-ins for the library, on which the module is run at concrete inputs. The
  theorems about the module hold for every library. \<open>ec_failing\<close> throws from every
  call, as \<^verbatim>\<open>elliptic\<close> does when a public key is not an encoded point
  (\<^verbatim>\<open>Error('Unknown point format')\<close>); \<open>ec_total\<close> throws from none and takes every
  private-key string, as \<^verbatim>\<open>elliptic\<close>'s \<^verbatim>\<open>keyFromPrivate\<close> does, which reduces the
  number it reads modulo the group order instead of rejecting it.
\<close>

definition ec_failing :: "(unit, unit) elliptic" where
  "ec_failing =
     \<lparr>EC_keyFromPrivate = (\<lambda>pKeyHex. Inl (Error ''Invalid character'')),
      EC_recoverPubKey = (\<lambda>data sig j. Inl (Error ''invalid point'')),
      EC_verify = (\<lambda>data sig key. Inl (Error ''Unknown point format'')),
      pair_getPublic = (\<lambda>keyPair. Inl (Error ''invalid point'')),
      pair_getPublic_hex = (\<lambda>keyPair. Inl (Error ''invalid point'')),
      pair_getPrivate_hex = (\<lambda>keyPair. Inl (Error ''invalid point'')),
      point_encode_compressed = (\<lambda>pub. Inl (Error ''invalid point'')),
      point_encodeCompressed_hex = (\<lambda>pub. Inl (Error ''invalid point''))\<rparr>"

definition ec_total :: "(js_string, js_string) elliptic" where
  "ec_total =
     \<lparr>EC_keyFromPrivate = (\<lambda>pKeyHex. Inr pKeyHex),
      EC_recoverPubKey = (\<lambda>data sig j. Inr data),
      EC_verify = (\<lambda>data sig key. Inr True),
      pair_getPublic = (\<lambda>keyPair. Inr keyPair),
      pair_getPublic_hex = (\<lambda>keyPair. Inr keyPair),
      pair_getPrivate_hex = (\<lambda>keyPair. Inr keyPair),
      point_encode_compressed = (\<lambda>pub. Inr (Buffer_from_hex pub)),
      point_encodeCompressed_hex = (\<lambda>pub. Inr pub)\<rparr>"

section \<open>The wallet module\<close>

text \<open>
  The functions of \<^verbatim>\<open>gliesereum.ts\<close>, each under its source. The fields of \<open>Wallet\<close> keep
  their names, so a local variable named like a field is renamed (\<open>addr\<close>, \<open>pubKey\<close>).
  \<^verbatim>\<open>createWallet\<close>, which draws a random key pair, and \<^verbatim>\<open>sign\<close> are not modelled: no
  property below is about them.
\<close>

definition CHECKSUM_SIZE :: int where
  "CHECKSUM_SIZE = 1"

record Wallet =
  publicKey :: js_string
  privateKey :: js_string
  address :: js_string
  number :: number

text \<open>\<^verbatim>\<open>SHA256(message)\<close> of crypto-js on a string message.\<close>

definition SHA256 :: "js_string \<Rightarrow> error + byte list" where
  "SHA256 message = (case Utf8_parse message of Inl e \<Rightarrow> Inl e | Inr bs \<Rightarrow> Inr (sha256 bs))"

text \<open>
  \<^verbatim>\<open>
  function createHash(bytes: Buffer): Buffer {
      const sha256Hash = SHA256(bytes.toString('utf8')).toString();
      return Buffer.from(ripemd160.create().update(Buffer.from(sha256Hash, 'utf8')).digest());
  }\<close>
\<close>

definition createHash :: "byte list \<Rightarrow> error + byte list" where
  "createHash bytes =
     (case SHA256 (Buffer_toString_utf8 bytes) of
        Inl e \<Rightarrow> Inl e
      | Inr digest \<Rightarrow>
          (let sha256Hash = Hex_stringify digest
           in Inr (ripemd160 (Buffer_from_utf8 sha256Hash))))"

text \<open>
  \<^verbatim>\<open>
  function createChecksum(bytes: Buffer): Buffer {
      return createHash(createHash(bytes)).slice(0, CHECKSUM_SIZE);
  }\<close>
\<close>

definition createChecksum :: "byte list \<Rightarrow> error + byte list" where
  "createChecksum bytes =
     (case createHash bytes of
        Inl e \<Rightarrow> Inl e
      | Inr inner \<Rightarrow>
          (case createHash inner of
             Inl e \<Rightarrow> Inl e
           | Inr outer \<Rightarrow> Inr (Buffer_slice 0 CHECKSUM_SIZE outer)))"

text \<open>
  \<^verbatim>\<open>
  function getAddress(bytes: Buffer): string {
      const pubKeyHash = createHash(bytes);
      const versionAndHash = Buffer.concat([Buffer.from([0x90]), pubKeyHash]);
      const checksum = createChecksum(versionAndHash);
      const fullPayload = Buffer.concat([versionAndHash, checksum]);
      return bs58.encode(fullPayload);
  }\<close>
\<close>

definition getAddress :: "byte list \<Rightarrow> error + js_string" where
  "getAddress bytes =
     (case createHash bytes of
        Inl e \<Rightarrow> Inl e
      | Inr pubKeyHash \<Rightarrow>
          (let versionAndHash = Buffer_from_array [Some 0x90] @ pubKeyHash
           in case createChecksum versionAndHash of
                Inl e \<Rightarrow> Inl e
              | Inr checksum \<Rightarrow>
                  (let fullPayload = versionAndHash @ checksum
                   in Inr (bs58_encode fullPayload))))"

text \<open>
  \<^verbatim>\<open>
  function validateAddress(address: string): boolean {
      const decodedKey = bs58.decode(address);
      const version = decodedKey[0];
      const payload = decodedKey.slice(1, -CHECKSUM_SIZE);
      const actualChecksum = decodedKey.slice(-CHECKSUM_SIZE);
      const targetChecksum = createChecksum(Buffer.concat([Buffer.from([version]), payload]));
      return Buffer.compare(targetChecksum, actualChecksum) === 0;
  }\<close>
\<close>

definition validateAddress :: "js_string \<Rightarrow> error + bool" where
  "validateAddress addr =
     (case bs58_decode addr of
        Inl e \<Rightarrow> Inl e
      | Inr decodedKey \<Rightarrow>
          (let version = Buffer_index decodedKey 0;
               payload = Buffer_slice 1 (- CHECKSUM_SIZE) decodedKey;
               actualChecksum = Buffer_slice_from (- CHECKSUM_SIZE) decodedKey
           in case createChecksum (Buffer_from_array [version] @ payload) of
                Inl e \<Rightarrow> Inl e
              | Inr targetChecksum \<Rightarrow> Inr (Buffer_compare targetChecksum actualChecksum = 0)))"

text \<open>
  \<^verbatim>\<open>
  function recover(data: string, sig: ec.Signature): string {
      try {
          if (typeof sig.recoveryParam === "number") {
              const recovered = EC.recoverPubKey(data, sig, sig.recoveryParam, "hex");
              return recovered.encodeCompressed("hex");
          }
      } catch (error) {
          console.error("Failed to recover the public key:", error);
      }
      return "invalid";
  }\<close>
  The \<^verbatim>\<open>try\<close> block catches whatever the two library calls throw; the handler only
  writes to the console, which is not modelled.
\<close>

definition recover :: "('kp, 'pt) elliptic \<Rightarrow> js_string \<Rightarrow> signature \<Rightarrow> error + js_string" where
  "recover ec data sig =
     (case recoveryParam sig of
        None \<Rightarrow> Inr (js ''invalid'')
      | Some j \<Rightarrow>
          (case EC_recoverPubKey ec data sig j of
             Inl e \<Rightarrow> Inr (js ''invalid'')
           | Inr recovered \<Rightarrow>
               (case point_encodeCompressed_hex ec recovered of
                  Inl e \<Rightarrow> Inr (js ''invalid'')
                | Inr hex \<Rightarrow> Inr hex)))"

text \<open>
  \<^verbatim>\<open>
  function verify(data: string, sig: ec.Signature, publicKey: string): boolean {
      return EC.verify(data, sig, Buffer.from(publicKey, "hex"), "hex");
  }\<close>
\<close>

definition verify :: "('kp, 'pt) elliptic \<Rightarrow> js_string \<Rightarrow> signature \<Rightarrow> js_string \<Rightarrow> error + bool" where
  "verify ec data sig pubKey = EC_verify ec data sig (Buffer_from_hex pubKey)"

text \<open>
  \<^verbatim>\<open>
  function cardNumber(input: string): number {
      const hash = SHA256(input);
      const num = parseInt(hash.toString().substr(0, 16), 16);
      return 1000000000000000 + (num % 9000000000000000);
  }\<close>
\<close>

definition cardNumber :: "js_string \<Rightarrow> error + number" where
  "cardNumber input =
     (case SHA256 input of
        Inl e \<Rightarrow> Inl e
      | Inr hash \<Rightarrow>
          (let num = parseInt_hex (take 16 (Hex_stringify hash))
           in Inr (js_add (Number 1000000000000000) (js_mod num (Number 9000000000000000)))))"


section \<open>The address scheme as specified\<close>

text \<open>
  Modelled from the spec: the hash pipeline and the address encoding of its sections 4.1 and
  4.2, written as they are stated there, for comparison with \<open>createHash\<close>,
  \<open>createChecksum\<close> and \<open>getAddress\<close> above. The constants are \<^verbatim>\<open>version = 0x90\<close> and
  \<^verbatim>\<open>checksumSize = 1\<close>.
  \<^item> \<^verbatim>\<open>shortHash(bytes)\<close> "computes \<^verbatim>\<open>RIPEMD160(SHA256(bytes))\<close>", the input being "treated
    as raw binary throughout".
  \<^item> \<^verbatim>\<open>checksum(bytes)\<close> "computes \<^verbatim>\<open>shortHash(shortHash(bytes))\<close> truncated to the first
    \<^verbatim>\<open>checksumSize\<close> bytes".
  \<^item> \<^verbatim>\<open>encode(publicKeyBytes)\<close>: \<^verbatim>\<open>hash = shortHash(publicKeyBytes)\<close>,
    \<^verbatim>\<open>versionedHash = [versionByte] || hash\<close>, \<^verbatim>\<open>chk = checksum(versionedHash)\<close>,
    \<^verbatim>\<open>payload = versionedHash || chk\<close>, return \<^verbatim>\<open>Base58Encode(payload)\<close>.
\<close>

definition spec_versionByte :: byte where
  "spec_versionByte = 0x90"

definition spec_checksumSize :: nat where
  "spec_checksumSize = 1"

definition spec_shortHash :: "byte list \<Rightarrow> byte list" where
  "spec_shortHash bytes = ripemd160 (sha256 bytes)"

definition spec_checksum :: "byte list \<Rightarrow> byte list" where
  "spec_checksum bytes = take spec_checksumSize (spec_shortHash (spec_shortHash bytes))"

definition spec_encode :: "byte list \<Rightarrow> js_string" where
  "spec_encode publicKeyBytes =
     (let hash = spec_shortHash publicKeyBytes;
          versionedHash = [spec_versionByte] @ hash;
          chk = spec_checksum versionedHash;
          payload = versionedHash @ chk
      in bs58_encode payload)"

section \<open>Properties of the primitives\<close>

subsection \<open>Buffers and digests\<close>

lemma Buffer_compare_eq: "(Buffer_compare a b = 0) = (a = b)"
  by (induction a b rule: Buffer_compare.induct) auto

lemma length_rmd_steps: "length st = 5 \<Longrightarrow> length (rmd_steps f k x rss st) = 5"
  by (induction f k x rss st rule: rmd_steps.induct) auto

lemma length_rmd_combine: "length h = 5 \<Longrightarrow> length (rmd_combine h l r) = 5"
  by (induction h l r rule: rmd_combine.induct) auto

lemma length_rmd_compress: "length h = 5 \<Longrightarrow> length (rmd_compress h x) = 5"
  by (simp add: rmd_compress_def length_rmd_combine)

lemma length_foldl_rmd: "length h = 5 \<Longrightarrow> length (foldl rmd_compress h xs) = 5"
  by (induction xs arbitrary: h) (auto simp: length_rmd_compress)

lemma length_concat_le_bytes: "length (concat (map (le_bytes 4) ws)) = 4 * length ws"
  by (induction ws) (auto simp: le_bytes_def)

lemma length_ripemd160: "length (ripemd160 bs) = 20"
  by (simp add: ripemd160_def ripemd160_nat_def length_concat_le_bytes length_foldl_rmd rmd_init_def)

subsection \<open>UTF-8\<close>

lemma is_low_nat: "is_low u = (56320 \<le> unat u \<and> unat u \<le> 57343)"
  by (simp add: is_low_def word_le_nat_alt)

lemma is_high_nat: "is_high u = (55296 \<le> unat u \<and> unat u \<le> 56319)"
  by (simp add: is_high_def word_le_nat_alt)

lemma unat_unit: "cp < 65536 \<Longrightarrow> unat (of_nat cp :: 16 word) = cp"
  by (simp add: unat_of_nat)

lemma Utf8_parse_units:
  assumes "cp < 0xD800 \<or> (0xE000 \<le> cp \<and> cp < 0x110000)" and "Utf8_parse us = Inr r"
  shows "Utf8_parse (utf16_units cp @ us) = Inr (utf8_bytes cp @ r)"
proof (cases "cp < 0x10000")
  case True
  then have "unat (of_nat cp :: 16 word) = cp"
    by (intro unat_unit) simp
  with True assms show ?thesis
    by (auto simp: utf16_units_def is_low_nat is_high_nat)
next
  case False
  define x where "x = cp - 0x10000"
  define hi :: "16 word" where "hi = of_nat (0xD800 + x div 1024)"
  define lo :: "16 word" where "lo = of_nat (0xDC00 + x mod 1024)"
  have x: "x < 0x100000" "cp = 0x10000 + x"
    using assms False by (auto simp: x_def)
  have hi: "unat hi = 0xD800 + x div 1024"
    unfolding hi_def using x by (intro unat_unit) simp
  have lo: "unat lo = 0xDC00 + x mod 1024"
    unfolding lo_def by (intro unat_unit) simp
  have d: "x div 1024 < 1024" "x mod 1024 < 1024" using x by simp_all
  have "x div 1024 * 1024 + x mod 1024 = x" by simp
  then have pp: "pair_point hi lo = cp"
    by (simp add: pair_point_def hi lo x(2))
  have h: "is_high hi" "\<not> is_low hi" "is_low lo"
    using d by (simp_all add: is_high_nat is_low_nat hi lo)
  have "utf16_units cp = [hi, lo]"
    using False by (simp add: utf16_units_def hi_def lo_def x_def)
  with h pp assms(2) show ?thesis by simp
qed

lemma m16: "224 \<le> (n::nat) \<Longrightarrow> n \<le> 239 \<Longrightarrow> n mod 16 = n - 224"
  by (auto simp: mod_if)

lemma m8: "240 \<le> (n::nat) \<Longrightarrow> n \<le> 244 \<Longrightarrow> n mod 8 = n - 240"
  by (auto simp: mod_if)

lemma m64a: "128 \<le> (n::nat) \<Longrightarrow> n \<le> 159 \<Longrightarrow> n mod 64 < 32"
  by (auto simp: mod_if)

lemma m64b: "128 \<le> (n::nat) \<Longrightarrow> n \<le> 143 \<Longrightarrow> n mod 64 < 16"
  by (auto simp: mod_if)

lemma m64c: "144 \<le> (n::nat) \<Longrightarrow> n \<le> 191 \<Longrightarrow> 16 \<le> n mod 64"
  by (auto simp: mod_if)

lemma cp3_ok:
  assumes "0xE0 \<le> b" "b \<le> 0xEF" "second_ok b c"
  shows "unat b mod 16 * 4096 + low6 c * 64 + low6 d < 0xD800 \<or>
         (0xE000 \<le> unat b mod 16 * 4096 + low6 c * 64 + low6 d \<and>
          unat b mod 16 * 4096 + low6 c * 64 + low6 d < 0x110000)"
proof -
  have b: "224 \<le> unat b" "unat b \<le> 239"
    using assms by (simp_all add: word_le_nat_alt)
  have c: "unat b = 237 \<Longrightarrow> 128 \<le> unat c \<and> unat c \<le> 159"
    using assms(3) by (simp add: second_ok_def word_le_nat_alt word_unat_eq_iff)
  have l: "low6 c < 64" "low6 d < 64" by (simp_all add: low6_def)
  have c': "unat b = 237 \<Longrightarrow> low6 c < 32"
    using c m64a [of "unat c"] by (simp add: low6_def)
  have "unat b mod 16 = unat b - 224" using b by (rule m16)
  with b c' l show ?thesis by (cases "unat b = 237") auto
qed

lemma cp4_ok:
  assumes "0xF0 \<le> b" "b \<le> 0xF4" "second_ok b c"
  shows "0xE000 \<le> unat b mod 8 * 262144 + low6 c * 4096 + low6 d * 64 + low6 e \<and>
          unat b mod 8 * 262144 + low6 c * 4096 + low6 d * 64 + low6 e < 0x110000"
proof -
  have b: "240 \<le> unat b" "unat b \<le> 244"
    using assms by (simp_all add: word_le_nat_alt)
  have c4: "unat b = 244 \<Longrightarrow> 128 \<le> unat c \<and> unat c \<le> 143"
    using assms(3) by (simp add: second_ok_def word_le_nat_alt word_unat_eq_iff)
  have c0: "unat b = 240 \<Longrightarrow> 144 \<le> unat c \<and> unat c \<le> 191"
    using assms(3) by (simp add: second_ok_def word_le_nat_alt word_unat_eq_iff)
  have l: "low6 c < 64" "low6 d < 64" "low6 e < 64" by (simp_all add: low6_def)
  have c4': "unat b = 244 \<Longrightarrow> low6 c < 16"
    using c4 m64b [of "unat c"] by (simp add: low6_def)
  have c0': "unat b = 240 \<Longrightarrow> 16 \<le> low6 c"
    using c0 m64c [of "unat c"] by (simp add: low6_def)
  have "unat b mod 8 = unat b - 240" using b by (rule m8)
  with b c4' c0' l show ?thesis
    by (cases "unat b = 244"; cases "unat b = 240") auto
qed

lemma Utf8_parse_FFFD: "Utf8_parse us = Inr r \<Longrightarrow> Utf8_parse (0xFFFD # us) = Inr (utf8_bytes 0xFFFD @ r)"
  by (simp add: is_low_def is_high_def)

lemma Utf8_parse_ascii:
  "b < 0x80 \<Longrightarrow> Utf8_parse us = Inr r \<Longrightarrow>
   Utf8_parse (of_nat (unat b) # us) = Inr (utf8_bytes (unat b) @ r)" for b :: byte
proof -
  assume b: "b < 0x80" and r: "Utf8_parse us = Inr r"
  have "unat b < 128" using b by (simp add: word_less_nat_alt)
  then have "unat (of_nat (unat b) :: 16 word) = unat b"
    by (intro unat_unit) simp
  with \<open>unat b < 128\<close> r show ?thesis
    by (simp add: is_low_nat is_high_nat del: of_nat_unat)
qed

lemma cp2_ok: "unat b mod 32 * 64 + low6 c < 0xD800"
proof -
  have "unat b mod 32 < 32" "low6 c < 64" by (simp_all add: low6_def)
  then show ?thesis by simp
qed

lemma decode_lead:
  fixes b :: byte
  shows "0xC2 \<le> b \<Longrightarrow> \<not> b < 0x80"
    and "0xE0 \<le> b \<Longrightarrow> \<not> b < 0x80 \<and> \<not> (0xC2 \<le> b \<and> b \<le> 0xDF)"
    and "0xF0 \<le> b \<Longrightarrow> \<not> b < 0x80 \<and> \<not> (0xC2 \<le> b \<and> b \<le> 0xDF) \<and> \<not> (0xE0 \<le> b \<and> b \<le> 0xEF)"
  by (simp_all add: word_le_nat_alt word_less_nat_alt)

lemma decode_1: "b < 0x80 \<Longrightarrow> Buffer_toString_utf8 (b # bs) = of_nat (unat b) # Buffer_toString_utf8 bs"
  by (subst Buffer_toString_utf8.simps) (simp only: if_True)

lemma decode_2:
  assumes "0xC2 \<le> b" "b \<le> 0xDF"
  shows "Buffer_toString_utf8 [b] = [0xFFFD]"
    and "Buffer_toString_utf8 (b # c # cs) =
          (if is_cont c then utf16_units (unat b mod 32 * 64 + low6 c) @ Buffer_toString_utf8 cs
           else 0xFFFD # Buffer_toString_utf8 (c # cs))"
  using assms decode_lead(1) [of b]
  by (subst Buffer_toString_utf8.simps, simp only: if_True if_False list.case simp_thms)+

lemma decode_3:
  assumes "0xE0 \<le> b" "b \<le> 0xEF"
  shows "Buffer_toString_utf8 [b] = [0xFFFD]"
    and "Buffer_toString_utf8 [b, c] = (if second_ok b c then [0xFFFD] else 0xFFFD # Buffer_toString_utf8 [c])"
    and "Buffer_toString_utf8 (b # c # d # ds) =
          (if second_ok b c
           then if is_cont d
                then utf16_units (unat b mod 16 * 4096 + low6 c * 64 + low6 d) @ Buffer_toString_utf8 ds
                else 0xFFFD # Buffer_toString_utf8 (d # ds)
           else 0xFFFD # Buffer_toString_utf8 (c # d # ds))"
  using assms decode_lead(2) [of b]
  by (subst Buffer_toString_utf8.simps, simp only: if_True if_False list.case simp_thms)+

lemma decode_4:
  assumes "0xF0 \<le> b" "b \<le> 0xF4"
  shows "Buffer_toString_utf8 [b] = [0xFFFD]"
    and "Buffer_toString_utf8 [b, c] = (if second_ok b c then [0xFFFD] else 0xFFFD # Buffer_toString_utf8 [c])"
    and "Buffer_toString_utf8 [b, c, d] =
          (if second_ok b c
           then if is_cont d then [0xFFFD] else 0xFFFD # Buffer_toString_utf8 [d]
           else 0xFFFD # Buffer_toString_utf8 [c, d])"
    and "Buffer_toString_utf8 (b # c # d # e # es) =
          (if second_ok b c
           then if is_cont d
                then if is_cont e
                     then utf16_units (unat b mod 8 * 262144 + low6 c * 4096 + low6 d * 64 + low6 e)
                            @ Buffer_toString_utf8 es
                     else 0xFFFD # Buffer_toString_utf8 (e # es)
                else 0xFFFD # Buffer_toString_utf8 (d # e # es)
           else 0xFFFD # Buffer_toString_utf8 (c # d # e # es))"
  using assms decode_lead(3) [of b]
  by (subst Buffer_toString_utf8.simps, simp only: if_True if_False list.case simp_thms)+

lemma decode_5:
  "\<not> b < 0x80 \<Longrightarrow> \<not> (0xC2 \<le> b \<and> b \<le> 0xDF) \<Longrightarrow> \<not> (0xE0 \<le> b \<and> b \<le> 0xEF) \<Longrightarrow>
   \<not> (0xF0 \<le> b \<and> b \<le> 0xF4) \<Longrightarrow>
   Buffer_toString_utf8 (b # bs) = 0xFFFD # Buffer_toString_utf8 bs"
  by (subst Buffer_toString_utf8.simps) (simp only: if_False)

lemma parses_FFFD: "\<exists>r. Utf8_parse us = Inr r \<Longrightarrow> \<exists>r. Utf8_parse (0xFFFD # us) = Inr r"
  using Utf8_parse_FFFD by blast

lemma parses_units:
  "cp < 0xD800 \<or> (0xE000 \<le> cp \<and> cp < 0x110000) \<Longrightarrow> \<exists>r. Utf8_parse us = Inr r \<Longrightarrow>
   \<exists>r. Utf8_parse (utf16_units cp @ us) = Inr r"
  using Utf8_parse_units by blast

lemma parses_nil: "\<exists>r. Utf8_parse [0xFFFD] = Inr r"
  using parses_FFFD [of "[]"] by simp

lemma Utf8_parse_decoded: "\<exists>r. Utf8_parse (Buffer_toString_utf8 bs) = Inr r"
proof (induction bs rule: length_induct)
  case (1 bs)
  then have IH: "\<And>ys. length ys < length bs \<Longrightarrow> \<exists>r. Utf8_parse (Buffer_toString_utf8 ys) = Inr r"
    by blast
  have bad: "\<And>ys. length ys < length bs \<Longrightarrow> \<exists>r. Utf8_parse (0xFFFD # Buffer_toString_utf8 ys) = Inr r"
    by (intro parses_FFFD IH)
  show ?case
  proof (cases bs)
    case Nil
    then show ?thesis by simp
  next
    case (Cons b cs)
    note bs = Cons
    consider (a) "b < 0x80" | (b) "0xC2 \<le> b" "b \<le> 0xDF" | (c) "0xE0 \<le> b" "b \<le> 0xEF"
      | (d) "0xF0 \<le> b" "b \<le> 0xF4"
      | (e) "\<not> b < 0x80" "\<not> (0xC2 \<le> b \<and> b \<le> 0xDF)" "\<not> (0xE0 \<le> b \<and> b \<le> 0xEF)" "\<not> (0xF0 \<le> b \<and> b \<le> 0xF4)"
      by blast
    then show ?thesis
    proof cases
      case a
      obtain r where "Utf8_parse (Buffer_toString_utf8 cs) = Inr r"
        using IH [of cs] bs by auto
      from Utf8_parse_ascii [OF a this] show ?thesis
        unfolding bs decode_1 [OF a] by blast
    next
      case b
      show ?thesis
      proof (cases cs)
        case Nil
        show ?thesis unfolding bs Nil decode_2 [OF b] by (rule parses_nil)
      next
        case (Cons c ds)
        have "\<exists>r. Utf8_parse (utf16_units (unat b mod 32 * 64 + low6 c) @ Buffer_toString_utf8 ds) = Inr r"
          by (intro parses_units disjI1 cp2_ok IH) (simp add: bs Cons)
        moreover have "\<exists>r. Utf8_parse (0xFFFD # Buffer_toString_utf8 (c # ds)) = Inr r"
          by (intro bad) (simp add: bs Cons)
        ultimately show ?thesis unfolding bs Cons decode_2 [OF b] by (simp only: split: if_split) blast
      qed
    next
      case c
      show ?thesis
      proof (cases cs)
        case Nil
        show ?thesis unfolding bs Nil decode_3 [OF c] by (rule parses_nil)
      next
        case (Cons c1 ds)
        note cs = Cons
        show ?thesis
        proof (cases ds)
          case Nil
          have "\<exists>r. Utf8_parse (0xFFFD # Buffer_toString_utf8 [c1]) = Inr r"
            by (intro bad) (simp add: bs cs)
          with parses_nil show ?thesis unfolding bs cs Nil decode_3 [OF c] by (simp only: split: if_split) blast
        next
          case (Cons c2 es)
          have "second_ok b c1 \<Longrightarrow>
            \<exists>r. Utf8_parse (utf16_units (unat b mod 16 * 4096 + low6 c1 * 64 + low6 c2) @ Buffer_toString_utf8 es) = Inr r"
            using c by (intro parses_units cp3_ok IH) (simp_all add: bs cs Cons)
          moreover have "\<exists>r. Utf8_parse (0xFFFD # Buffer_toString_utf8 (c2 # es)) = Inr r"
            by (intro bad) (simp add: bs cs Cons)
          moreover have "\<exists>r. Utf8_parse (0xFFFD # Buffer_toString_utf8 (c1 # c2 # es)) = Inr r"
            by (intro bad) (simp add: bs cs Cons)
          ultimately show ?thesis unfolding bs cs Cons decode_3 [OF c] by (simp only: split: if_split) blast
        qed
      qed
    next
      case d
      show ?thesis
      proof (cases cs)
        case Nil
        show ?thesis unfolding bs Nil decode_4 [OF d] by (rule parses_nil)
      next
        case (Cons c1 ds)
        note cs = Cons
        show ?thesis
        proof (cases ds)
          case Nil
          have "\<exists>r. Utf8_parse (0xFFFD # Buffer_toString_utf8 [c1]) = Inr r"
            by (intro bad) (simp add: bs cs)
          with parses_nil show ?thesis unfolding bs cs Nil decode_4 [OF d] by (simp only: split: if_split) blast
        next
          case (Cons c2 es)
          note ds = Cons
          show ?thesis
          proof (cases es)
            case Nil
            have "\<exists>r. Utf8_parse (0xFFFD # Buffer_toString_utf8 [c1, c2]) = Inr r"
              by (intro bad) (simp add: bs cs ds)
            moreover have "\<exists>r. Utf8_parse (0xFFFD # Buffer_toString_utf8 [c2]) = Inr r"
              by (intro bad) (simp add: bs cs ds)
            ultimately show ?thesis
              using parses_nil unfolding bs cs ds Nil decode_4 [OF d] by (simp only: split: if_split) blast
          next
            case (Cons c3 fs)
            have "second_ok b c1 \<Longrightarrow>
              \<exists>r. Utf8_parse (utf16_units (unat b mod 8 * 262144 + low6 c1 * 4096 + low6 c2 * 64 + low6 c3)
                     @ Buffer_toString_utf8 fs) = Inr r"
              using d by (intro parses_units disjI2 cp4_ok IH) (simp_all add: bs cs ds Cons)
            moreover have "\<exists>r. Utf8_parse (0xFFFD # Buffer_toString_utf8 (c3 # fs)) = Inr r"
              by (intro bad) (simp add: bs cs ds Cons)
            moreover have "\<exists>r. Utf8_parse (0xFFFD # Buffer_toString_utf8 (c2 # c3 # fs)) = Inr r"
              by (intro bad) (simp add: bs cs ds Cons)
            moreover have "\<exists>r. Utf8_parse (0xFFFD # Buffer_toString_utf8 (c1 # c2 # c3 # fs)) = Inr r"
              by (intro bad) (simp add: bs cs ds Cons)
            ultimately show ?thesis unfolding bs cs ds Cons decode_4 [OF d] by (simp only: split: if_split) blast
          qed
        qed
      qed
    next
      case e
      have "\<exists>r. Utf8_parse (0xFFFD # Buffer_toString_utf8 cs) = Inr r"
        by (intro bad) (simp add: bs)
      then show ?thesis unfolding bs decode_5 [OF e] .
    qed
  qed
qed

subsection \<open>Base58\<close>

lemma ALPHABET_distinct: "distinct ALPHABET"
  by (simp add: ALPHABET_def js_def)

lemma ALPHABET_length: "length ALPHABET = 58"
  by (simp add: ALPHABET_def js_def)

lemma index_of_nth: "distinct xs \<Longrightarrow> i < length xs \<Longrightarrow> index_of (xs ! i) xs = Some i"
proof (induction xs arbitrary: i)
  case Nil
  then show ?case by simp
next
  case (Cons x xs)
  then show ?case by (cases i) auto
qed

lemma index_of_Some: "index_of x xs = Some i \<Longrightarrow> i < length xs \<and> xs ! i = x"
  by (induction xs arbitrary: i) (auto split: if_splits)

lemma index_of_None: "(index_of x xs = None) = (x \<notin> set xs)"
  by (induction xs) auto

lemma b58_digit_nth: "d < 58 \<Longrightarrow> index_of (ALPHABET ! d) ALPHABET = Some d"
  by (simp add: index_of_nth ALPHABET_distinct ALPHABET_length)

lemma index_of_LEADER: "index_of LEADER ALPHABET = Some 0"
  unfolding LEADER_def by (rule b58_digit_nth) simp

lemma nth_ne_LEADER: "d < 58 \<Longrightarrow> d \<noteq> 0 \<Longrightarrow> ALPHABET ! d \<noteq> LEADER"
  unfolding LEADER_def using ALPHABET_distinct
  by (simp add: nth_eq_iff_index_eq ALPHABET_length)

lemma b58_digits_append:
  "b58_digits xs = Some ds \<Longrightarrow> b58_digits ys = Some es \<Longrightarrow> b58_digits (xs @ ys) = Some (ds @ es)"
  by (induction xs arbitrary: ds) (auto split: option.splits)

lemma b58_digits_leaders: "b58_digits (replicate z LEADER) = Some (replicate z 0)"
  by (induction z) (auto simp: index_of_LEADER)

lemma b58_digits_map: "\<forall>d\<in>set ds. d < 58 \<Longrightarrow> b58_digits (map (\<lambda>d. ALPHABET ! d) ds) = Some ds"
  by (induction ds) (auto simp: b58_digit_nth)

lemma from_base_snoc: "from_base b (ds @ [d]) = from_base b ds * b + d"
  by (simp add: from_base_def)

lemma from_base_zeros: "from_base b (replicate z 0 @ ds) = from_base b ds"
proof -
  have "foldl (\<lambda>a d. a * b + d) 0 (replicate z 0) = 0"
    by (induction z) auto
  then show ?thesis by (simp add: from_base_def)
qed

lemma to_base_0: "to_base b 0 = []"
  by (simp add: to_base.simps)

lemma to_base_step: "2 \<le> b \<Longrightarrow> n \<noteq> 0 \<Longrightarrow> to_base b n = to_base b (n div b) @ [n mod b]"
  by (subst to_base.simps) simp

lemma to_base_Nil: "2 \<le> b \<Longrightarrow> (to_base b n = []) = (n = 0)"
  by (cases "n = 0") (simp_all add: to_base_0 to_base_step)

lemma from_to_base: "2 \<le> b \<Longrightarrow> from_base b (to_base b n) = n"
proof (induction b n rule: to_base.induct)
  case (1 b n)
  show ?case
  proof (cases "n = 0")
    case True
    then show ?thesis by (simp add: to_base_0 from_base_def)
  next
    case False
    with 1 show ?thesis by (simp add: to_base_step from_base_snoc)
  qed
qed

lemma to_base_lt: "2 \<le> b \<Longrightarrow> d \<in> set (to_base b n) \<Longrightarrow> d < b"
proof (induction b n rule: to_base.induct)
  case (1 b n)
  show ?case
  proof (cases "n = 0")
    case True
    with 1(3) show ?thesis by (simp add: to_base_0)
  next
    case False
    with 1 show ?thesis by (auto simp: to_base_step)
  qed
qed

lemma to_base_hd: "2 \<le> b \<Longrightarrow> n \<noteq> 0 \<Longrightarrow> hd (to_base b n) \<noteq> 0"
proof (induction b n rule: to_base.induct)
  case (1 b n)
  show ?case
  proof (cases "n div b = 0")
    case True
    with 1(2,3) have "to_base b n = [n mod b]" "n < b"
      by (simp_all add: to_base_step to_base_0 div_eq_0_iff)
    with 1(3) show ?thesis by simp
  next
    case False
    with 1 have "hd (to_base b (n div b)) \<noteq> 0" "to_base b (n div b) \<noteq> []"
      by (simp_all add: to_base_Nil)
    with 1(2,3) show ?thesis by (simp add: to_base_step)
  qed
qed

lemma to_from_base:
  assumes "2 \<le> b" "\<forall>d\<in>set ds. d < b" "ds \<noteq> [] \<longrightarrow> hd ds \<noteq> 0"
  shows "to_base b (from_base b ds) = ds"
  using assms(2,3)
proof (induction ds rule: rev_induct)
  case Nil
  show ?case by (simp add: from_base_def to_base_0)
next
  case (snoc d ds)
  have d: "d < b" using snoc.prems by simp
  show ?case
  proof (cases "ds = []")
    case True
    with snoc.prems d assms(1) show ?thesis
      by (simp add: from_base_def to_base_step to_base_0)
  next
    case False
    with snoc have IH: "to_base b (from_base b ds) = ds" by simp
    with False assms(1) have "from_base b ds \<noteq> 0"
      using to_base_0 by metis
    then have "from_base b ds * b + d \<noteq> 0" using assms(1) by simp
    with assms(1) d IH show ?thesis
      by (simp add: from_base_snoc to_base_step)
  qed
qed

lemma takeWhile_replicate_append:
  "(ys \<noteq> [] \<longrightarrow> hd ys \<noteq> x) \<Longrightarrow> takeWhile (\<lambda>c. c = x) (replicate z x @ ys) = replicate z x"
  by (induction z) (auto simp: takeWhile_eq_Nil_iff)

lemma takeWhile_zero_replicate:
  "takeWhile (\<lambda>b. b = 0) bs = replicate (length (takeWhile (\<lambda>b. b = 0) bs)) (0 :: byte)"
  by (induction bs) auto

lemma unat_bytes_back: "map of_nat (map unat bs) = (bs :: byte list)"
  by (induction bs) auto

lemma unat_byte_lt: "unat (x :: byte) < 256"
  using unsigned_less [of x, where ?'a = nat] by simp

lemma bs58_roundtrip: "bs58_decode (bs58_encode bs) = Inr bs"
proof -
  define z where "z = length (takeWhile (\<lambda>b. b = 0) bs)"
  define rest where "rest = dropWhile (\<lambda>b. b = 0) bs"
  define n where "n = from_base 256 (map unat rest)"
  define ds where "ds = to_base 58 n"
  define cs where "cs = map (\<lambda>d. ALPHABET ! d) ds"
  have enc: "bs58_encode bs = replicate z LEADER @ cs"
    by (simp add: bs58_encode_def z_def rest_def n_def ds_def cs_def)
  have bs: "bs = replicate z 0 @ rest"
    using takeWhile_dropWhile_id [of "\<lambda>b. b = 0" bs] takeWhile_zero_replicate [of bs]
    by (simp add: z_def rest_def)
  have rest_hd: "rest \<noteq> [] \<longrightarrow> hd rest \<noteq> 0"
    unfolding rest_def using hd_dropWhile [of "\<lambda>b. b = 0" bs] by blast
  have "to_base 256 (from_base 256 (map unat rest)) = map unat rest"
  proof (rule to_from_base)
    show "\<forall>d\<in>set (map unat rest). d < 256"
      by (auto simp: unat_byte_lt)
    show "map unat rest \<noteq> [] \<longrightarrow> hd (map unat rest) \<noteq> 0"
      using rest_hd by (auto simp: hd_map unat_eq_zero)
  qed simp
  then have decoded: "map of_nat (to_base 256 n) = rest"
    unfolding n_def by (simp only: unat_bytes_back)
  have ds_lt: "\<forall>d\<in>set ds. d < 58"
    unfolding ds_def using to_base_lt [of 58 _ n] by simp
  have digits: "b58_digits (replicate z LEADER @ cs) = Some (replicate z 0 @ ds)"
    unfolding cs_def by (intro b58_digits_append b58_digits_leaders b58_digits_map ds_lt)
  have val: "from_base 58 (replicate z 0 @ ds) = n"
    by (simp add: from_base_zeros ds_def from_to_base)
  have "cs \<noteq> [] \<longrightarrow> hd cs \<noteq> LEADER"
  proof
    assume "cs \<noteq> []"
    then have ne: "ds \<noteq> []" by (simp add: cs_def)
    then have "n \<noteq> 0" using to_base_0 ds_def by metis
    then have "hd ds \<noteq> 0" unfolding ds_def by (intro to_base_hd) simp
    moreover have "hd ds < 58" using ds_lt ne by simp
    ultimately have "ALPHABET ! hd ds \<noteq> LEADER" by (intro nth_ne_LEADER)
    then show "hd cs \<noteq> LEADER" using ne by (simp add: cs_def hd_map)
  qed
  then have lead: "takeWhile (\<lambda>c. c = LEADER) (replicate z LEADER @ cs) = replicate z LEADER"
    by (rule takeWhile_replicate_append)
  show ?thesis
  proof (cases "replicate z LEADER @ cs = []")
    case True
    then have "z = 0" "ds = []" by (simp_all add: cs_def)
    then have "n = 0" using to_base_Nil [of 58 n] by (simp add: ds_def)
    then have "rest = []" using decoded by (simp add: to_base_0)
    with \<open>z = 0\<close> bs have "bs = []" by simp
    moreover have "bs58_encode bs = []" using True enc by simp
    ultimately show ?thesis by (simp add: bs58_decode_def)
  next
    case False
    then show ?thesis
      unfolding enc bs58_decode_def using digits val lead decoded bs by auto
  qed
qed

subsection \<open>Doubles and the digest prefix\<close>

lemma bit_length_le: "n < 2 ^ k \<Longrightarrow> bit_length n \<le> k"
proof (induction k arbitrary: n)
  case 0
  then show ?case by (simp add: bit_length.simps)
next
  case (Suc k)
  then have "n div 2 < 2 ^ k" by auto
  with Suc.IH [of "n div 2"] show ?case
    by (subst bit_length.simps) simp
qed

lemma bit_length_gt: "2 ^ k \<le> n \<Longrightarrow> k < bit_length n"
proof (induction k arbitrary: n)
  case 0
  then show ?case by (subst bit_length.simps) simp
next
  case (Suc k)
  then have "2 ^ k \<le> n div 2" by auto
  moreover have "(0::nat) < 2 ^ Suc k" by simp
  then have "n \<noteq> 0" using Suc.prems by linarith
  ultimately show ?case
    using Suc.IH [of "n div 2"] by (subst bit_length.simps) simp
qed

lemma to_double_small: "n < 2 ^ 53 \<Longrightarrow> to_double n = n"
  using bit_length_le [of n 53] by (simp add: to_double_def)

lemma to_double_even: "2 ^ 53 \<le> n \<Longrightarrow> even (to_double n)"
  using bit_length_gt [of 53 n] by (auto simp: to_double_def Let_def)

lemma to_double_54:
  assumes "2 ^ 53 \<le> s" "s < 2 ^ 54"
  shows "to_double s = (if odd s \<and> odd (s div 2) then s + 1 else if odd s then s - 1 else s)"
proof -
  have "bit_length s = 54"
    using bit_length_gt [OF assms(1)] bit_length_le [OF assms(2)] by simp
  then have e: "bit_length s - 53 = 1" by simp
  have "s mod 2 = 1 \<Longrightarrow> s div 2 * 2 = s - 1" "s mod 2 = 1 \<Longrightarrow> (s div 2 + 1) * 2 = s + 1"
       "s mod 2 = 0 \<Longrightarrow> s div 2 * 2 = s"
    by presburger+
  then show ?thesis
    by (auto simp: to_double_def e odd_iff_mod_2_eq_one)
qed

lemma length_sha256_rounds: "length st = 8 \<Longrightarrow> length (sha256_rounds ks w st) = 8"
  by (induction ks w st rule: sha256_rounds.induct) (auto simp: Let_def)

lemma length_sha256_compress: "length st = 8 \<Longrightarrow> length (sha256_compress st w) = 8"
  by (simp add: sha256_compress_def length_sha256_rounds)

lemma length_foldl_sha256: "length st = 8 \<Longrightarrow> length (foldl sha256_compress st ws) = 8"
  by (induction ws arbitrary: st) (auto simp: length_sha256_compress)

lemma length_concat_be_bytes: "length (concat (map (be_bytes 4) ws)) = 4 * length ws"
  by (induction ws) (auto simp: be_bytes_def le_bytes_def)

lemma length_sha256: "length (sha256 bs) = 32"
  by (simp add: sha256_def sha256_nat_def length_concat_be_bytes length_foldl_sha256 H256_def)

lemma hex_value_hex_char: "d < 16 \<Longrightarrow> hex_value (hex_char d) = Some d"
proof -
  assume d: "d < 16"
  have "unat (of_nat (48 + d) :: 16 word) = 48 + d" "unat (of_nat (87 + d) :: 16 word) = 87 + d"
    using d by (simp_all only: unat_of_nat) simp_all
  with d show ?thesis
    by (auto simp: hex_value_def hex_char_def simp del: of_nat_add)
qed

lemma hex_prefix_stringify:
  "hex_prefix (Hex_stringify bs @ cs) =
   concat (map (\<lambda>b. [unat b div 16, unat b mod 16]) bs) @ hex_prefix cs"
proof (induction bs)
  case Nil
  show ?case by (simp add: Hex_stringify_def)
next
  case (Cons b bs)
  have "unat b div 16 < 16" using unat_byte_lt [of b] by simp
  with Cons show ?case
    by (simp add: Hex_stringify_def hex_value_hex_char)
qed

lemma take_stringify: "take (2 * k) (Hex_stringify bs) = Hex_stringify (take k bs)"
proof (induction bs arbitrary: k)
  case Nil
  show ?case by (simp add: Hex_stringify_def)
next
  case (Cons b bs)
  show ?case
  proof (cases k)
    case 0
    then show ?thesis by (simp add: Hex_stringify_def)
  next
    case (Suc j)
    with Cons [of j] show ?thesis by (simp add: Hex_stringify_def)
  qed
qed

lemma from_base_append: "from_base b (xs @ ys) = from_base b xs * b ^ length ys + from_base b ys"
proof (induction ys rule: rev_induct)
  case Nil
  show ?case by (simp add: from_base_def)
next
  case (snoc y ys)
  show ?case
    unfolding append_assoc [symmetric] from_base_snoc snoc by (simp add: algebra_simps)
qed

lemma from_base_nibbles:
  "from_base 16 (concat (map (\<lambda>b. [unat b div 16, unat b mod 16]) bs)) =
   from_base 256 (map unat (bs :: byte list))"
proof (induction bs rule: rev_induct)
  case Nil
  show ?case by (simp add: from_base_def)
next
  case (snoc b bs)
  have "unat b div 16 * 16 + unat b mod 16 = unat b" by simp
  then show ?case
    using snoc by (simp add: from_base_append from_base_snoc) (simp add: from_base_def)
qed

lemma from_base_bound: "\<forall>d\<in>set ds. d < b \<Longrightarrow> from_base b ds < b ^ length ds"
proof (induction ds rule: rev_induct)
  case Nil
  show ?case by (simp add: from_base_def)
next
  case (snoc d ds)
  then have "from_base b ds < b ^ length ds" "d < b" by simp_all
  then have "from_base b ds * b + d < (from_base b ds + 1) * b" by (simp add: algebra_simps)
  also have "\<dots> \<le> b ^ length ds * b" using \<open>from_base b ds < b ^ length ds\<close>
    by (intro mult_le_mono1) simp
  finally show ?case by (simp add: from_base_snoc mult.commute)
qed

lemma parseInt_digest:
  assumes "length hash = 32"
  shows "parseInt_hex (take 16 (Hex_stringify hash)) =
         Number (to_double (from_base 256 (map unat (take 8 hash))))"
    and "from_base 256 (map unat (take 8 hash)) < 2 ^ 64"
proof -
  have t: "take 16 (Hex_stringify hash) = Hex_stringify (take 8 hash)"
    using take_stringify [of 8 hash] by simp
  have p: "hex_prefix (Hex_stringify (take 8 hash)) =
           concat (map (\<lambda>b. [unat b div 16, unat b mod 16]) (take 8 hash))"
    using hex_prefix_stringify [of "take 8 hash" "[]"] by simp
  obtain b bs where "take 8 hash = b # bs" using assms by (cases hash) auto
  then have "hex_prefix (Hex_stringify (take 8 hash)) \<noteq> []"
    unfolding p by simp
  then show "parseInt_hex (take 16 (Hex_stringify hash)) =
         Number (to_double (from_base 256 (map unat (take 8 hash))))"
    unfolding parseInt_hex_def t
    by (cases "hex_prefix (Hex_stringify (take 8 hash))") (simp_all add: p [symmetric] from_base_nibbles [symmetric])
  have "from_base 256 (map unat (take 8 hash)) < 256 ^ length (map unat (take 8 hash))"
    by (intro from_base_bound) (auto simp: unat_byte_lt)
  with assms show "from_base 256 (map unat (take 8 hash)) < 2 ^ 64" by simp
qed

lemma card_range:
  fixes n :: nat
  defines "s \<equiv> 10 ^ 15 + to_double n mod (9 * 10 ^ 15)"
  shows "10 ^ 15 \<le> to_double s" and "to_double s \<le> 10 ^ 16"
    and "n \<noteq> 8999999999999999 \<Longrightarrow> to_double s \<le> 10 ^ 16 - 1"
    and "2 ^ 53 \<le> n \<Longrightarrow> to_double s = s"
proof -
  have r: "to_double n mod (9 * 10 ^ 15) < 9 * 10 ^ 15" by simp
  then have s: "10 ^ 15 \<le> s" "s < 10 ^ 16" by (simp_all add: s_def)
  have small: "s < 2 ^ 53 \<Longrightarrow> to_double s = s" by (rule to_double_small)
  have big: "2 ^ 53 \<le> s \<Longrightarrow>
     to_double s = (if odd s \<and> odd (s div 2) then s + 1 else if odd s then s - 1 else s)"
    using s(2) by (intro to_double_54) simp_all
  show "10 ^ 15 \<le> to_double s"
    using s small big by (cases "s < 2 ^ 53") (auto split: if_splits)
  show "to_double s \<le> 10 ^ 16"
    using s small big by (cases "s < 2 ^ 53") (auto split: if_splits)
  have ev: "even (to_double n) \<Longrightarrow> even s"
    unfolding s_def by (simp add: dvd_mod)
  then have exact: "even (to_double n) \<Longrightarrow> to_double s = s"
    using small big by (cases "s < 2 ^ 53") auto
  show "to_double s = s" if "2 ^ 53 \<le> n"
    using that to_double_even exact by blast
  show "to_double s \<le> 10 ^ 16 - 1" if ne: "n \<noteq> 8999999999999999"
  proof (rule ccontr)
    assume "\<not> to_double s \<le> 10 ^ 16 - 1"
    with \<open>to_double s \<le> 10 ^ 16\<close> have top: "to_double s = 10 ^ 16" by simp
    have "s = 10 ^ 16 - 1"
      using top s small big by (cases "s < 2 ^ 53") (auto split: if_splits)
    then have m: "to_double n mod (9 * 10 ^ 15) = 8999999999999999"
      by (simp add: s_def)
    have "odd (to_double n)"
    proof
      assume "even (to_double n)"
      then have "even (to_double n mod (9 * 10 ^ 15))" by (simp add: dvd_mod)
      with m show False by simp
    qed
    then have "n < 2 ^ 53" using to_double_even [of n] by (cases "n < 2 ^ 53") auto
    then have "to_double n = n" by (rule to_double_small)
    with m \<open>n < 2 ^ 53\<close> have "n = 8999999999999999"
      by (simp add: mod_if split: if_splits)
    with ne show False by simp
  qed
qed

lemma Utf8_parse_error: "Utf8_parse s = Inl e \<Longrightarrow> e = URIError"
  by (induction s arbitrary: e rule: Utf8_parse.induct)
     (auto split: if_splits list.splits sum.splits)

lemma cardNumber_digest:
  assumes "SHA256 input = Inr hash"
  shows "let n = from_base 256 (map unat (take 8 hash));
             v = to_double (10 ^ 15 + to_double n mod (9 * 10 ^ 15))
         in n < 2 ^ 64 \<and> cardNumber input = Inr (Number v) \<and>
            10 ^ 15 \<le> v \<and> v \<le> 10 ^ 16 \<and>
            (n \<noteq> 8999999999999999 \<longrightarrow> v \<le> 10 ^ 16 - 1) \<and>
            (2 ^ 53 \<le> n \<longrightarrow> v = 10 ^ 15 + to_double n mod (9 * 10 ^ 15))"
proof -
  define n where "n = from_base 256 (map unat (take 8 hash))"
  have "length hash = 32"
    using assms by (auto simp: SHA256_def length_sha256 split: sum.splits)
  from parseInt_digest [OF this]
  have p: "parseInt_hex (take 16 (Hex_stringify hash)) = Number (to_double n)" and n: "n < 2 ^ 64"
    by (simp_all add: n_def)
  have c: "cardNumber input = Inr (Number (to_double (10 ^ 15 + to_double n mod (9 * 10 ^ 15))))"
    using assms p by (simp add: cardNumber_def)
  show ?thesis
    unfolding Let_def n_def [symmetric]
    using n c card_range [of n] by simp
qed

section \<open>Properties of the wallet module\<close>

lemma createHash_total: "\<exists>h. createHash bytes = Inr h \<and> length h = 20"
  using Utf8_parse_decoded [of bytes]
  by (auto simp: createHash_def SHA256_def length_ripemd160)

lemma slice_checksum: "Buffer_slice 0 CHECKSUM_SIZE xs = take 1 xs"
  by (cases xs) (simp_all add: Buffer_slice_def rel_index_def CHECKSUM_SIZE_def)

lemma createChecksum_total: "\<exists>c. createChecksum bytes = Inr [c]"
proof -
  obtain h where h: "createHash bytes = Inr h" using createHash_total by blast
  obtain k where k: "createHash h = Inr k" "length k = 20" using createHash_total by blast
  then obtain c ks where "k = c # ks" by (cases k) auto
  with h k show ?thesis by (simp add: createChecksum_def slice_checksum)
qed

lemma slice_payload: "Buffer_slice 1 (- CHECKSUM_SIZE) (v # h @ [c]) = h"
  by (simp add: Buffer_slice_def rel_index_def CHECKSUM_SIZE_def)

lemma slice_last: "Buffer_slice_from (- CHECKSUM_SIZE) (xs @ [c]) = [c]"
  by (simp add: Buffer_slice_from_def rel_index_def CHECKSUM_SIZE_def)

lemma getAddress_layout:
  "(\<exists>h c. createHash pk = Inr h \<and> length h = 20 \<and>
          createChecksum ([0x90] @ h) = Inr c \<and> length c = 1 \<and>
          getAddress pk = Inr (bs58_encode ([0x90] @ h @ c))) \<and>
   (\<exists>inner outer. createHash x = Inr inner \<and> createHash inner = Inr outer \<and>
          createChecksum x = Inr (take 1 outer))"
proof
  obtain h where h: "createHash pk = Inr h" "length h = 20" using createHash_total by blast
  obtain c where c: "createChecksum (0x90 # h) = Inr [c]" using createChecksum_total by blast
  with h show "\<exists>h c. createHash pk = Inr h \<and> length h = 20 \<and>
          createChecksum ([0x90] @ h) = Inr c \<and> length c = 1 \<and>
          getAddress pk = Inr (bs58_encode ([0x90] @ h @ c))"
    by (simp add: getAddress_def Buffer_from_array_def)
  obtain i where i: "createHash x = Inr i" using createHash_total by blast
  obtain k where k: "createHash i = Inr k" using createHash_total by blast
  with i show "\<exists>inner outer. createHash x = Inr inner \<and> createHash inner = Inr outer \<and>
          createChecksum x = Inr (take 1 outer)"
    by (simp add: createChecksum_def slice_checksum)
qed

lemma index_of_in: "index_of x xs = Some i \<Longrightarrow> x \<in> set xs"
  using index_of_None [of x xs] by auto

lemma b58_digits_None: "(b58_digits a = None) = (\<exists>c\<in>set a. c \<notin> set ALPHABET)"
  by (induction a) (auto simp: index_of_None dest: index_of_in split: option.splits)

lemma validateAddress_decoded:
  "bs58_decode a = Inr decodedKey \<Longrightarrow> \<exists>v. validateAddress a = Inr v"
  using createChecksum_total
    [of "Buffer_from_array [Buffer_index decodedKey 0] @ Buffer_slice 1 (- CHECKSUM_SIZE) decodedKey"]
  by (auto simp: validateAddress_def Let_def)

lemma validateAddress_empty: "validateAddress [] = Inr False"
proof -
  obtain c where "createChecksum [0] = Inr [c]" using createChecksum_total by blast
  then show ?thesis
    by (simp add: validateAddress_def bs58_decode_def Buffer_index_def Buffer_slice_def
        Buffer_slice_from_def Buffer_from_array_def rel_index_def)
qed






section \<open>Digests of concrete inputs\<close>

text \<open>
  The hashes are evaluated by rewriting with their defining equations; a \<open>let\<close> is
  unfolded once the term it binds is a value.
\<close>

lemma replicate_numeral_unfold: "replicate (numeral k) x = x # replicate (pred_numeral k) x"
  by (simp add: numeral_eq_Suc)

lemmas hash_eval = add32_def rotr32_def rotl32_def not32_def le_bytes_def be_bytes_def pad_zeros_def
  upt_rec replicate_numeral_unfold

lemmas sha256_eval = sha256_def sha256_nat_def sha256_pad_def sha256_compress_def K256_def H256_def
  sha_ch_def sha_maj_def Sigma0_def Sigma1_def sigma0_def sigma1_def next_w_def Let_def hash_eval

lemmas ripemd160_eval = ripemd160_def ripemd160_nat_def rmd_pad_def rmd_compress_def rmd_init_def
  rmd_line_left_def rmd_line_right_def rmd_left_def rmd_right_def
  rmd_f1_def rmd_f2_def rmd_f3_def rmd_f4_def rmd_f5_def hash_eval

lemmas codec_eval = is_cont_def second_ok_def low6_def utf16_units_def is_high_def is_low_def
  pair_point_def utf8_bytes_def hex_char_def Hex_stringify_def

lemma sha256_empty:
  "sha256 [] =
   Buffer_from_hex (js ''e3b0c44298fc1c149afbf4c8996fb92427ae41e4649b934ca495991b7852b855'')"
  by (simp add: sha256_eval js_def hex_value_def cong: let_weak_cong)

lemma createHash_eval:
  "Buffer_toString_utf8 bytes = s \<Longrightarrow> Utf8_parse s = Inr m \<Longrightarrow> sha256 m = d \<Longrightarrow>
   Buffer_from_utf8 (Hex_stringify d) = h \<Longrightarrow> ripemd160 h = r \<Longrightarrow> createHash bytes = Inr r"
  by (simp add: createHash_def SHA256_def)

lemma createChecksum_eval:
  "createHash bytes = Inr inner \<Longrightarrow> createHash inner = Inr (c # outer) \<Longrightarrow>
   createChecksum bytes = Inr [c]"
  by (simp add: createChecksum_def slice_checksum)

lemma decode_0x13: "Buffer_toString_utf8 [0x13] = [0x13]"
  by (simp add: codec_eval)

lemma parse_0x13: "Utf8_parse [0x13] = Inr [0x13]"
  by (simp add: codec_eval)

lemma sha256_0x13:
  "sha256 [0x13] =
   [0xab, 0x89, 0x7f, 0xbd, 0xed, 0xfa, 0x50, 0x2b, 0x2d, 0x83, 0x9b, 0x6a, 0x56, 0x10, 0x08,
    0x87, 0xdc, 0xcd, 0xc5, 0x07, 0x55, 0x5c, 0x28, 0x2e, 0x59, 0x58, 0x9e, 0x06, 0x30, 0x0a,
    0x62, 0xe2]"
  by (simp add: sha256_eval cong: let_weak_cong)

lemma hex_0x13:
  "Buffer_from_utf8 (Hex_stringify
   [0xab, 0x89, 0x7f, 0xbd, 0xed, 0xfa, 0x50, 0x2b, 0x2d, 0x83, 0x9b, 0x6a, 0x56, 0x10, 0x08,
    0x87, 0xdc, 0xcd, 0xc5, 0x07, 0x55, 0x5c, 0x28, 0x2e, 0x59, 0x58, 0x9e, 0x06, 0x30, 0x0a,
    0x62, 0xe2]) =
   [0x61, 0x62, 0x38, 0x39, 0x37, 0x66, 0x62, 0x64, 0x65, 0x64, 0x66, 0x61, 0x35, 0x30, 0x32,
    0x62, 0x32, 0x64, 0x38, 0x33, 0x39, 0x62, 0x36, 0x61, 0x35, 0x36, 0x31, 0x30, 0x30, 0x38,
    0x38, 0x37, 0x64, 0x63, 0x63, 0x64, 0x63, 0x35, 0x30, 0x37, 0x35, 0x35, 0x35, 0x63, 0x32,
    0x38, 0x32, 0x65, 0x35, 0x39, 0x35, 0x38, 0x39, 0x65, 0x30, 0x36, 0x33, 0x30, 0x30, 0x61,
    0x36, 0x32, 0x65, 0x32]"
  by (simp add: codec_eval)

lemma ripemd160_0x13:
  "ripemd160
   [0x61, 0x62, 0x38, 0x39, 0x37, 0x66, 0x62, 0x64, 0x65, 0x64, 0x66, 0x61, 0x35, 0x30, 0x32,
    0x62, 0x32, 0x64, 0x38, 0x33, 0x39, 0x62, 0x36, 0x61, 0x35, 0x36, 0x31, 0x30, 0x30, 0x38,
    0x38, 0x37, 0x64, 0x63, 0x63, 0x64, 0x63, 0x35, 0x30, 0x37, 0x35, 0x35, 0x35, 0x63, 0x32,
    0x38, 0x32, 0x65, 0x35, 0x39, 0x35, 0x38, 0x39, 0x65, 0x30, 0x36, 0x33, 0x30, 0x30, 0x61,
    0x36, 0x32, 0x65, 0x32] =
   [0x42, 0xc9, 0x90, 0x19, 0x29, 0xfb, 0x49, 0xe7, 0x07, 0x4a, 0x86, 0xc2, 0x03, 0xbe, 0x9e,
    0x69, 0x4c, 0x24, 0x33, 0x6b]"
  by (simp add: ripemd160_eval)

lemma createHash_0x13:
  "createHash [0x13] = Inr
   [0x42, 0xc9, 0x90, 0x19, 0x29, 0xfb, 0x49, 0xe7, 0x07, 0x4a, 0x86, 0xc2, 0x03, 0xbe, 0x9e,
    0x69, 0x4c, 0x24, 0x33, 0x6b]"
  by (rule createHash_eval [OF decode_0x13 parse_0x13 sha256_0x13 hex_0x13 ripemd160_0x13])

lemma decode_inner:
  "Buffer_toString_utf8
   [0x42, 0xc9, 0x90, 0x19, 0x29, 0xfb, 0x49, 0xe7, 0x07, 0x4a, 0x86, 0xc2, 0x03, 0xbe, 0x9e,
    0x69, 0x4c, 0x24, 0x33, 0x6b] =
   [0x42, 0x0250, 0x19, 0x29, 0xfffd, 0x49, 0xfffd, 0x07, 0x4a, 0xfffd, 0xfffd, 0x03, 0xfffd,
    0xfffd, 0x69, 0x4c, 0x24, 0x33, 0x6b]"
  by (simp add: codec_eval)

lemma parse_inner:
  "Utf8_parse
   [0x42, 0x0250, 0x19, 0x29, 0xfffd, 0x49, 0xfffd, 0x07, 0x4a, 0xfffd, 0xfffd, 0x03, 0xfffd,
    0xfffd, 0x69, 0x4c, 0x24, 0x33, 0x6b] = Inr
   [0x42, 0xc9, 0x90, 0x19, 0x29, 0xef, 0xbf, 0xbd, 0x49, 0xef, 0xbf, 0xbd, 0x07, 0x4a, 0xef,
    0xbf, 0xbd, 0xef, 0xbf, 0xbd, 0x03, 0xef, 0xbf, 0xbd, 0xef, 0xbf, 0xbd, 0x69, 0x4c, 0x24,
    0x33, 0x6b]"
  by (simp add: codec_eval)

lemma sha256_inner:
  "sha256
   [0x42, 0xc9, 0x90, 0x19, 0x29, 0xef, 0xbf, 0xbd, 0x49, 0xef, 0xbf, 0xbd, 0x07, 0x4a, 0xef,
    0xbf, 0xbd, 0xef, 0xbf, 0xbd, 0x03, 0xef, 0xbf, 0xbd, 0xef, 0xbf, 0xbd, 0x69, 0x4c, 0x24,
    0x33, 0x6b] =
   [0xda, 0x70, 0x69, 0x9e, 0x13, 0xf0, 0x42, 0xec, 0xfa, 0xb3, 0xf9, 0xb3, 0xdb, 0x90, 0x80,
    0xd0, 0xee, 0x4e, 0xc8, 0xe5, 0xcf, 0x4c, 0x70, 0xeb, 0xec, 0x09, 0xd6, 0x70, 0x28, 0xd9,
    0x1b, 0x10]"
  by (simp add: sha256_eval cong: let_weak_cong)

lemma hex_inner:
  "Buffer_from_utf8 (Hex_stringify
   [0xda, 0x70, 0x69, 0x9e, 0x13, 0xf0, 0x42, 0xec, 0xfa, 0xb3, 0xf9, 0xb3, 0xdb, 0x90, 0x80,
    0xd0, 0xee, 0x4e, 0xc8, 0xe5, 0xcf, 0x4c, 0x70, 0xeb, 0xec, 0x09, 0xd6, 0x70, 0x28, 0xd9,
    0x1b, 0x10]) =
   [0x64, 0x61, 0x37, 0x30, 0x36, 0x39, 0x39, 0x65, 0x31, 0x33, 0x66, 0x30, 0x34, 0x32, 0x65,
    0x63, 0x66, 0x61, 0x62, 0x33, 0x66, 0x39, 0x62, 0x33, 0x64, 0x62, 0x39, 0x30, 0x38, 0x30,
    0x64, 0x30, 0x65, 0x65, 0x34, 0x65, 0x63, 0x38, 0x65, 0x35, 0x63, 0x66, 0x34, 0x63, 0x37,
    0x30, 0x65, 0x62, 0x65, 0x63, 0x30, 0x39, 0x64, 0x36, 0x37, 0x30, 0x32, 0x38, 0x64, 0x39,
    0x31, 0x62, 0x31, 0x30]"
  by (simp add: codec_eval)

lemma ripemd160_inner:
  "ripemd160
   [0x64, 0x61, 0x37, 0x30, 0x36, 0x39, 0x39, 0x65, 0x31, 0x33, 0x66, 0x30, 0x34, 0x32, 0x65,
    0x63, 0x66, 0x61, 0x62, 0x33, 0x66, 0x39, 0x62, 0x33, 0x64, 0x62, 0x39, 0x30, 0x38, 0x30,
    0x64, 0x30, 0x65, 0x65, 0x34, 0x65, 0x63, 0x38, 0x65, 0x35, 0x63, 0x66, 0x34, 0x63, 0x37,
    0x30, 0x65, 0x62, 0x65, 0x63, 0x30, 0x39, 0x64, 0x36, 0x37, 0x30, 0x32, 0x38, 0x64, 0x39,
    0x31, 0x62, 0x31, 0x30] =
   [0x13, 0x16, 0xba, 0x27, 0xdd, 0xdc, 0x1f, 0x3c, 0xb9, 0x7c, 0x94, 0x4a, 0x3a, 0xa0, 0xa0,
    0x22, 0xcf, 0xe5, 0x1e, 0xcd]"
  by (simp add: ripemd160_eval)

lemma createHash_inner:
  "createHash
   [0x42, 0xc9, 0x90, 0x19, 0x29, 0xfb, 0x49, 0xe7, 0x07, 0x4a, 0x86, 0xc2, 0x03, 0xbe, 0x9e,
    0x69, 0x4c, 0x24, 0x33, 0x6b] = Inr
   [0x13, 0x16, 0xba, 0x27, 0xdd, 0xdc, 0x1f, 0x3c, 0xb9, 0x7c, 0x94, 0x4a, 0x3a, 0xa0, 0xa0,
    0x22, 0xcf, 0xe5, 0x1e, 0xcd]"
  by (rule createHash_eval [OF decode_inner parse_inner sha256_inner hex_inner ripemd160_inner])

lemma createChecksum_0x13: "createChecksum [0x13] = Inr [0x13]"
  by (rule createChecksum_eval [OF createHash_0x13 createHash_inner])

lemma decode_key:
  "Buffer_toString_utf8
   [0x02, 0x79, 0xbe, 0x66, 0x7e, 0xf9, 0xdc, 0xbb, 0xac, 0x55, 0xa0, 0x62, 0x95, 0xce, 0x87,
    0x0b, 0x07, 0x02, 0x9b, 0xfc, 0xdb, 0x2d, 0xce, 0x28, 0xd9, 0x59, 0xf2, 0x81, 0x5b, 0x16,
    0xf8, 0x17, 0x98] =
   [0x02, 0x79, 0xfffd, 0x66, 0x7e, 0xfffd, 0x073b, 0xfffd, 0x55, 0xfffd, 0x62, 0xfffd, 0x0387,
    0x0b, 0x07, 0x02, 0xfffd, 0xfffd, 0xfffd, 0x2d, 0xfffd, 0x28, 0xfffd, 0x59, 0xfffd, 0x5b,
    0x16, 0xfffd, 0x17, 0xfffd]"
  by (simp add: codec_eval)

lemma parse_key:
  "Utf8_parse
   [0x02, 0x79, 0xfffd, 0x66, 0x7e, 0xfffd, 0x073b, 0xfffd, 0x55, 0xfffd, 0x62, 0xfffd, 0x0387,
    0x0b, 0x07, 0x02, 0xfffd, 0xfffd, 0xfffd, 0x2d, 0xfffd, 0x28, 0xfffd, 0x59, 0xfffd, 0x5b,
    0x16, 0xfffd, 0x17, 0xfffd] = Inr
   [0x02, 0x79, 0xef, 0xbf, 0xbd, 0x66, 0x7e, 0xef, 0xbf, 0xbd, 0xdc, 0xbb, 0xef, 0xbf, 0xbd,
    0x55, 0xef, 0xbf, 0xbd, 0x62, 0xef, 0xbf, 0xbd, 0xce, 0x87, 0x0b, 0x07, 0x02, 0xef, 0xbf,
    0xbd, 0xef, 0xbf, 0xbd, 0xef, 0xbf, 0xbd, 0x2d, 0xef, 0xbf, 0xbd, 0x28, 0xef, 0xbf, 0xbd,
    0x59, 0xef, 0xbf, 0xbd, 0x5b, 0x16, 0xef, 0xbf, 0xbd, 0x17, 0xef, 0xbf, 0xbd]"
  by (simp add: codec_eval)

lemma sha256_key_text:
  "sha256
   [0x02, 0x79, 0xef, 0xbf, 0xbd, 0x66, 0x7e, 0xef, 0xbf, 0xbd, 0xdc, 0xbb, 0xef, 0xbf, 0xbd,
    0x55, 0xef, 0xbf, 0xbd, 0x62, 0xef, 0xbf, 0xbd, 0xce, 0x87, 0x0b, 0x07, 0x02, 0xef, 0xbf,
    0xbd, 0xef, 0xbf, 0xbd, 0xef, 0xbf, 0xbd, 0x2d, 0xef, 0xbf, 0xbd, 0x28, 0xef, 0xbf, 0xbd,
    0x59, 0xef, 0xbf, 0xbd, 0x5b, 0x16, 0xef, 0xbf, 0xbd, 0x17, 0xef, 0xbf, 0xbd] =
   [0x5f, 0xba, 0x25, 0x6d, 0xcc, 0xe7, 0x4d, 0x42, 0x5d, 0x5b, 0x3c, 0x19, 0x13, 0x13, 0x90,
    0x35, 0xe1, 0x14, 0x30, 0xb5, 0x8c, 0x16, 0xaa, 0x43, 0xf3, 0x0b, 0x70, 0x85, 0x2a, 0x53,
    0x40, 0x5b]"
  by (simp add: sha256_eval cong: let_weak_cong)

lemma hex_key:
  "Buffer_from_utf8 (Hex_stringify
   [0x5f, 0xba, 0x25, 0x6d, 0xcc, 0xe7, 0x4d, 0x42, 0x5d, 0x5b, 0x3c, 0x19, 0x13, 0x13, 0x90,
    0x35, 0xe1, 0x14, 0x30, 0xb5, 0x8c, 0x16, 0xaa, 0x43, 0xf3, 0x0b, 0x70, 0x85, 0x2a, 0x53,
    0x40, 0x5b]) =
   [0x35, 0x66, 0x62, 0x61, 0x32, 0x35, 0x36, 0x64, 0x63, 0x63, 0x65, 0x37, 0x34, 0x64, 0x34,
    0x32, 0x35, 0x64, 0x35, 0x62, 0x33, 0x63, 0x31, 0x39, 0x31, 0x33, 0x31, 0x33, 0x39, 0x30,
    0x33, 0x35, 0x65, 0x31, 0x31, 0x34, 0x33, 0x30, 0x62, 0x35, 0x38, 0x63, 0x31, 0x36, 0x61,
    0x61, 0x34, 0x33, 0x66, 0x33, 0x30, 0x62, 0x37, 0x30, 0x38, 0x35, 0x32, 0x61, 0x35, 0x33,
    0x34, 0x30, 0x35, 0x62]"
  by (simp add: codec_eval)

lemma ripemd160_key_hex:
  "ripemd160
   [0x35, 0x66, 0x62, 0x61, 0x32, 0x35, 0x36, 0x64, 0x63, 0x63, 0x65, 0x37, 0x34, 0x64, 0x34,
    0x32, 0x35, 0x64, 0x35, 0x62, 0x33, 0x63, 0x31, 0x39, 0x31, 0x33, 0x31, 0x33, 0x39, 0x30,
    0x33, 0x35, 0x65, 0x31, 0x31, 0x34, 0x33, 0x30, 0x62, 0x35, 0x38, 0x63, 0x31, 0x36, 0x61,
    0x61, 0x34, 0x33, 0x66, 0x33, 0x30, 0x62, 0x37, 0x30, 0x38, 0x35, 0x32, 0x61, 0x35, 0x33,
    0x34, 0x30, 0x35, 0x62] =
   [0xfc, 0x14, 0x50, 0x87, 0x06, 0x63, 0x36, 0xa2, 0xd6, 0x6d, 0x44, 0x66, 0x50, 0x55, 0xa3,
    0x7c, 0x63, 0xfd, 0xab, 0x02]"
  by (simp add: ripemd160_eval)

lemma createHash_key:
  "createHash
   [0x02, 0x79, 0xbe, 0x66, 0x7e, 0xf9, 0xdc, 0xbb, 0xac, 0x55, 0xa0, 0x62, 0x95, 0xce, 0x87,
    0x0b, 0x07, 0x02, 0x9b, 0xfc, 0xdb, 0x2d, 0xce, 0x28, 0xd9, 0x59, 0xf2, 0x81, 0x5b, 0x16,
    0xf8, 0x17, 0x98] = Inr
   [0xfc, 0x14, 0x50, 0x87, 0x06, 0x63, 0x36, 0xa2, 0xd6, 0x6d, 0x44, 0x66, 0x50, 0x55, 0xa3,
    0x7c, 0x63, 0xfd, 0xab, 0x02]"
  by (rule createHash_eval [OF decode_key parse_key sha256_key_text hex_key ripemd160_key_hex])

lemma sha256_key:
  "sha256
   [0x02, 0x79, 0xbe, 0x66, 0x7e, 0xf9, 0xdc, 0xbb, 0xac, 0x55, 0xa0, 0x62, 0x95, 0xce, 0x87,
    0x0b, 0x07, 0x02, 0x9b, 0xfc, 0xdb, 0x2d, 0xce, 0x28, 0xd9, 0x59, 0xf2, 0x81, 0x5b, 0x16,
    0xf8, 0x17, 0x98] =
   [0x0f, 0x71, 0x5b, 0xaf, 0x5d, 0x4c, 0x2e, 0xd3, 0x29, 0x78, 0x5c, 0xef, 0x29, 0xe5, 0x62,
    0xf7, 0x34, 0x88, 0xc8, 0xa2, 0xbb, 0x9d, 0xbc, 0x57, 0x00, 0xb3, 0x61, 0xd5, 0x4b, 0x9b,
    0x05, 0x54]"
  by (simp add: sha256_eval cong: let_weak_cong)

lemma ripemd160_sha256_key:
  "ripemd160
   [0x0f, 0x71, 0x5b, 0xaf, 0x5d, 0x4c, 0x2e, 0xd3, 0x29, 0x78, 0x5c, 0xef, 0x29, 0xe5, 0x62,
    0xf7, 0x34, 0x88, 0xc8, 0xa2, 0xbb, 0x9d, 0xbc, 0x57, 0x00, 0xb3, 0x61, 0xd5, 0x4b, 0x9b,
    0x05, 0x54] =
   [0x75, 0x1e, 0x76, 0xe8, 0x19, 0x91, 0x96, 0xd4, 0x54, 0x94, 0x1c, 0x45, 0xd1, 0xb3, 0xa3,
    0x23, 0xf1, 0x43, 0x3b, 0xd6]"
  by (simp add: ripemd160_eval)

lemma decode_versioned:
  "Buffer_toString_utf8
   [0x90, 0xfc, 0x14, 0x50, 0x87, 0x06, 0x63, 0x36, 0xa2, 0xd6, 0x6d, 0x44, 0x66, 0x50, 0x55,
    0xa3, 0x7c, 0x63, 0xfd, 0xab, 0x02] =
   [0xfffd, 0xfffd, 0x14, 0x50, 0xfffd, 0x06, 0x63, 0x36, 0xfffd, 0xfffd, 0x6d, 0x44, 0x66,
    0x50, 0x55, 0xfffd, 0x7c, 0x63, 0xfffd, 0xfffd, 0x02]"
  by (simp add: codec_eval)

lemma parse_versioned:
  "Utf8_parse
   [0xfffd, 0xfffd, 0x14, 0x50, 0xfffd, 0x06, 0x63, 0x36, 0xfffd, 0xfffd, 0x6d, 0x44, 0x66,
    0x50, 0x55, 0xfffd, 0x7c, 0x63, 0xfffd, 0xfffd, 0x02] = Inr
   [0xef, 0xbf, 0xbd, 0xef, 0xbf, 0xbd, 0x14, 0x50, 0xef, 0xbf, 0xbd, 0x06, 0x63, 0x36, 0xef,
    0xbf, 0xbd, 0xef, 0xbf, 0xbd, 0x6d, 0x44, 0x66, 0x50, 0x55, 0xef, 0xbf, 0xbd, 0x7c, 0x63,
    0xef, 0xbf, 0xbd, 0xef, 0xbf, 0xbd, 0x02]"
  by (simp add: codec_eval)

lemma sha256_versioned_text:
  "sha256
   [0xef, 0xbf, 0xbd, 0xef, 0xbf, 0xbd, 0x14, 0x50, 0xef, 0xbf, 0xbd, 0x06, 0x63, 0x36, 0xef,
    0xbf, 0xbd, 0xef, 0xbf, 0xbd, 0x6d, 0x44, 0x66, 0x50, 0x55, 0xef, 0xbf, 0xbd, 0x7c, 0x63,
    0xef, 0xbf, 0xbd, 0xef, 0xbf, 0xbd, 0x02] =
   [0x41, 0x5f, 0x93, 0x07, 0x33, 0x04, 0xae, 0xc6, 0xe0, 0xce, 0x22, 0xde, 0x6d, 0x93, 0x5b,
    0x14, 0xeb, 0x1b, 0xba, 0x52, 0x6b, 0x8a, 0x20, 0x19, 0x43, 0x86, 0x86, 0x6c, 0xe4, 0xf6,
    0xd7, 0x73]"
  by (simp add: sha256_eval cong: let_weak_cong)

lemma hex_versioned:
  "Buffer_from_utf8 (Hex_stringify
   [0x41, 0x5f, 0x93, 0x07, 0x33, 0x04, 0xae, 0xc6, 0xe0, 0xce, 0x22, 0xde, 0x6d, 0x93, 0x5b,
    0x14, 0xeb, 0x1b, 0xba, 0x52, 0x6b, 0x8a, 0x20, 0x19, 0x43, 0x86, 0x86, 0x6c, 0xe4, 0xf6,
    0xd7, 0x73]) =
   [0x34, 0x31, 0x35, 0x66, 0x39, 0x33, 0x30, 0x37, 0x33, 0x33, 0x30, 0x34, 0x61, 0x65, 0x63,
    0x36, 0x65, 0x30, 0x63, 0x65, 0x32, 0x32, 0x64, 0x65, 0x36, 0x64, 0x39, 0x33, 0x35, 0x62,
    0x31, 0x34, 0x65, 0x62, 0x31, 0x62, 0x62, 0x61, 0x35, 0x32, 0x36, 0x62, 0x38, 0x61, 0x32,
    0x30, 0x31, 0x39, 0x34, 0x33, 0x38, 0x36, 0x38, 0x36, 0x36, 0x63, 0x65, 0x34, 0x66, 0x36,
    0x64, 0x37, 0x37, 0x33]"
  by (simp add: codec_eval)

lemma ripemd160_versioned_hex:
  "ripemd160
   [0x34, 0x31, 0x35, 0x66, 0x39, 0x33, 0x30, 0x37, 0x33, 0x33, 0x30, 0x34, 0x61, 0x65, 0x63,
    0x36, 0x65, 0x30, 0x63, 0x65, 0x32, 0x32, 0x64, 0x65, 0x36, 0x64, 0x39, 0x33, 0x35, 0x62,
    0x31, 0x34, 0x65, 0x62, 0x31, 0x62, 0x62, 0x61, 0x35, 0x32, 0x36, 0x62, 0x38, 0x61, 0x32,
    0x30, 0x31, 0x39, 0x34, 0x33, 0x38, 0x36, 0x38, 0x36, 0x36, 0x63, 0x65, 0x34, 0x66, 0x36,
    0x64, 0x37, 0x37, 0x33] =
   [0xac, 0x3f, 0x96, 0x0e, 0x26, 0xb4, 0xa2, 0x9d, 0xa3, 0xcb, 0x88, 0x52, 0x90, 0x9e, 0x6d,
    0x7b, 0xd4, 0xf6, 0xc2, 0x05]"
  by (simp add: ripemd160_eval)

lemma createHash_versioned:
  "createHash
   [0x90, 0xfc, 0x14, 0x50, 0x87, 0x06, 0x63, 0x36, 0xa2, 0xd6, 0x6d, 0x44, 0x66, 0x50, 0x55,
    0xa3, 0x7c, 0x63, 0xfd, 0xab, 0x02] = Inr
   [0xac, 0x3f, 0x96, 0x0e, 0x26, 0xb4, 0xa2, 0x9d, 0xa3, 0xcb, 0x88, 0x52, 0x90, 0x9e, 0x6d,
    0x7b, 0xd4, 0xf6, 0xc2, 0x05]"
  by (rule createHash_eval [OF decode_versioned parse_versioned sha256_versioned_text
        hex_versioned ripemd160_versioned_hex])

lemma decode_versioned_inner:
  "Buffer_toString_utf8
   [0xac, 0x3f, 0x96, 0x0e, 0x26, 0xb4, 0xa2, 0x9d, 0xa3, 0xcb, 0x88, 0x52, 0x90, 0x9e, 0x6d,
    0x7b, 0xd4, 0xf6, 0xc2, 0x05] =
   [0xfffd, 0x3f, 0xfffd, 0x0e, 0x26, 0xfffd, 0xfffd, 0xfffd, 0xfffd, 0x02c8, 0x52, 0xfffd,
    0xfffd, 0x6d, 0x7b, 0xfffd, 0xfffd, 0xfffd, 0x05]"
  by (simp add: codec_eval)

lemma parse_versioned_inner:
  "Utf8_parse
   [0xfffd, 0x3f, 0xfffd, 0x0e, 0x26, 0xfffd, 0xfffd, 0xfffd, 0xfffd, 0x02c8, 0x52, 0xfffd,
    0xfffd, 0x6d, 0x7b, 0xfffd, 0xfffd, 0xfffd, 0x05] = Inr
   [0xef, 0xbf, 0xbd, 0x3f, 0xef, 0xbf, 0xbd, 0x0e, 0x26, 0xef, 0xbf, 0xbd, 0xef, 0xbf, 0xbd,
    0xef, 0xbf, 0xbd, 0xef, 0xbf, 0xbd, 0xcb, 0x88, 0x52, 0xef, 0xbf, 0xbd, 0xef, 0xbf, 0xbd,
    0x6d, 0x7b, 0xef, 0xbf, 0xbd, 0xef, 0xbf, 0xbd, 0xef, 0xbf, 0xbd, 0x05]"
  by (simp add: codec_eval)

lemma sha256_versioned_inner:
  "sha256
   [0xef, 0xbf, 0xbd, 0x3f, 0xef, 0xbf, 0xbd, 0x0e, 0x26, 0xef, 0xbf, 0xbd, 0xef, 0xbf, 0xbd,
    0xef, 0xbf, 0xbd, 0xef, 0xbf, 0xbd, 0xcb, 0x88, 0x52, 0xef, 0xbf, 0xbd, 0xef, 0xbf, 0xbd,
    0x6d, 0x7b, 0xef, 0xbf, 0xbd, 0xef, 0xbf, 0xbd, 0xef, 0xbf, 0xbd, 0x05] =
   [0x79, 0xb6, 0xa9, 0x26, 0x68, 0x2e, 0xad, 0x41, 0xfb, 0x7e, 0xa5, 0x49, 0x13, 0x87, 0x70,
    0xbe, 0x88, 0xb3, 0xf5, 0xac, 0x38, 0x7c, 0xd7, 0x3f, 0xae, 0xc0, 0xf5, 0x64, 0xa4, 0x9f,
    0x9b, 0x90]"
  by (simp add: sha256_eval cong: let_weak_cong)

lemma hex_versioned_inner:
  "Buffer_from_utf8 (Hex_stringify
   [0x79, 0xb6, 0xa9, 0x26, 0x68, 0x2e, 0xad, 0x41, 0xfb, 0x7e, 0xa5, 0x49, 0x13, 0x87, 0x70,
    0xbe, 0x88, 0xb3, 0xf5, 0xac, 0x38, 0x7c, 0xd7, 0x3f, 0xae, 0xc0, 0xf5, 0x64, 0xa4, 0x9f,
    0x9b, 0x90]) =
   [0x37, 0x39, 0x62, 0x36, 0x61, 0x39, 0x32, 0x36, 0x36, 0x38, 0x32, 0x65, 0x61, 0x64, 0x34,
    0x31, 0x66, 0x62, 0x37, 0x65, 0x61, 0x35, 0x34, 0x39, 0x31, 0x33, 0x38, 0x37, 0x37, 0x30,
    0x62, 0x65, 0x38, 0x38, 0x62, 0x33, 0x66, 0x35, 0x61, 0x63, 0x33, 0x38, 0x37, 0x63, 0x64,
    0x37, 0x33, 0x66, 0x61, 0x65, 0x63, 0x30, 0x66, 0x35, 0x36, 0x34, 0x61, 0x34, 0x39, 0x66,
    0x39, 0x62, 0x39, 0x30]"
  by (simp add: codec_eval)

lemma ripemd160_versioned_inner:
  "ripemd160
   [0x37, 0x39, 0x62, 0x36, 0x61, 0x39, 0x32, 0x36, 0x36, 0x38, 0x32, 0x65, 0x61, 0x64, 0x34,
    0x31, 0x66, 0x62, 0x37, 0x65, 0x61, 0x35, 0x34, 0x39, 0x31, 0x33, 0x38, 0x37, 0x37, 0x30,
    0x62, 0x65, 0x38, 0x38, 0x62, 0x33, 0x66, 0x35, 0x61, 0x63, 0x33, 0x38, 0x37, 0x63, 0x64,
    0x37, 0x33, 0x66, 0x61, 0x65, 0x63, 0x30, 0x66, 0x35, 0x36, 0x34, 0x61, 0x34, 0x39, 0x66,
    0x39, 0x62, 0x39, 0x30] =
   [0xa3, 0xee, 0xe9, 0x2e, 0xe5, 0x63, 0xce, 0x2d, 0xa6, 0x4b, 0x68, 0xb8, 0x8d, 0x56, 0x4d,
    0x05, 0x0b, 0xbf, 0x06, 0xd9]"
  by (simp add: ripemd160_eval)

lemma createHash_versioned_inner:
  "createHash
   [0xac, 0x3f, 0x96, 0x0e, 0x26, 0xb4, 0xa2, 0x9d, 0xa3, 0xcb, 0x88, 0x52, 0x90, 0x9e, 0x6d,
    0x7b, 0xd4, 0xf6, 0xc2, 0x05] = Inr
   [0xa3, 0xee, 0xe9, 0x2e, 0xe5, 0x63, 0xce, 0x2d, 0xa6, 0x4b, 0x68, 0xb8, 0x8d, 0x56, 0x4d,
    0x05, 0x0b, 0xbf, 0x06, 0xd9]"
  by (rule createHash_eval [OF decode_versioned_inner parse_versioned_inner
        sha256_versioned_inner hex_versioned_inner ripemd160_versioned_inner])

lemma createChecksum_versioned:
  "createChecksum
   [0x90, 0xfc, 0x14, 0x50, 0x87, 0x06, 0x63, 0x36, 0xa2, 0xd6, 0x6d, 0x44, 0x66, 0x50, 0x55,
    0xa3, 0x7c, 0x63, 0xfd, 0xab, 0x02] = Inr [0xa3]"
  by (rule createChecksum_eval [OF createHash_versioned createHash_versioned_inner])

lemma getAddress_key:
  "getAddress
   [0x02, 0x79, 0xbe, 0x66, 0x7e, 0xf9, 0xdc, 0xbb, 0xac, 0x55, 0xa0, 0x62, 0x95, 0xce, 0x87,
    0x0b, 0x07, 0x02, 0x9b, 0xfc, 0xdb, 0x2d, 0xce, 0x28, 0xd9, 0x59, 0xf2, 0x81, 0x5b, 0x16,
    0xf8, 0x17, 0x98] = Inr (bs58_encode
   [0x90, 0xfc, 0x14, 0x50, 0x87, 0x06, 0x63, 0x36, 0xa2, 0xd6, 0x6d, 0x44, 0x66, 0x50, 0x55,
    0xa3, 0x7c, 0x63, 0xfd, 0xab, 0x02, 0xa3])"
  by (simp add: getAddress_def createHash_key createChecksum_versioned Buffer_from_array_def)

lemma sha256_spec_versioned:
  "sha256
   [0x90, 0x75, 0x1e, 0x76, 0xe8, 0x19, 0x91, 0x96, 0xd4, 0x54, 0x94, 0x1c, 0x45, 0xd1, 0xb3,
    0xa3, 0x23, 0xf1, 0x43, 0x3b, 0xd6] =
   [0xe5, 0xe7, 0x3b, 0xbd, 0x17, 0xb3, 0xad, 0xb3, 0xab, 0x40, 0xed, 0x0d, 0x05, 0xda, 0x5a,
    0xfe, 0xe0, 0x29, 0x41, 0x3e, 0xbf, 0x79, 0xdf, 0x48, 0xec, 0x22, 0xea, 0xd8, 0x77, 0x9a,
    0x56, 0xd0]"
  by (simp add: sha256_eval cong: let_weak_cong)

lemma ripemd160_spec_versioned:
  "ripemd160
   [0xe5, 0xe7, 0x3b, 0xbd, 0x17, 0xb3, 0xad, 0xb3, 0xab, 0x40, 0xed, 0x0d, 0x05, 0xda, 0x5a,
    0xfe, 0xe0, 0x29, 0x41, 0x3e, 0xbf, 0x79, 0xdf, 0x48, 0xec, 0x22, 0xea, 0xd8, 0x77, 0x9a,
    0x56, 0xd0] =
   [0x93, 0xc2, 0x4e, 0x06, 0x60, 0xd3, 0x0e, 0xca, 0x60, 0x13, 0x64, 0x53, 0xd5, 0x60, 0x10,
    0x97, 0x22, 0x1b, 0x9d, 0x80]"
  by (simp add: ripemd160_eval)

lemma sha256_spec_inner:
  "sha256
   [0x93, 0xc2, 0x4e, 0x06, 0x60, 0xd3, 0x0e, 0xca, 0x60, 0x13, 0x64, 0x53, 0xd5, 0x60, 0x10,
    0x97, 0x22, 0x1b, 0x9d, 0x80] =
   [0x2c, 0xd8, 0x7b, 0x04, 0xad, 0x52, 0x94, 0x94, 0x0c, 0x0c, 0xdc, 0x81, 0x87, 0xd2, 0x59,
    0x22, 0xf1, 0x56, 0x66, 0x6b, 0xf0, 0xb7, 0x8c, 0xd6, 0xee, 0xd0, 0x89, 0x33, 0xbb, 0xfa,
    0xcf, 0x06]"
  by (simp add: sha256_eval cong: let_weak_cong)

lemma ripemd160_spec_inner:
  "ripemd160
   [0x2c, 0xd8, 0x7b, 0x04, 0xad, 0x52, 0x94, 0x94, 0x0c, 0x0c, 0xdc, 0x81, 0x87, 0xd2, 0x59,
    0x22, 0xf1, 0x56, 0x66, 0x6b, 0xf0, 0xb7, 0x8c, 0xd6, 0xee, 0xd0, 0x89, 0x33, 0xbb, 0xfa,
    0xcf, 0x06] =
   [0x96, 0xcb, 0x8b, 0x03, 0xeb, 0xc9, 0xaa, 0xb2, 0xa3, 0x25, 0xd2, 0xd7, 0x73, 0xe3, 0xa7,
    0xdd, 0xb7, 0x10, 0x0a, 0x01]"
  by (simp add: ripemd160_eval)

lemma spec_shortHash_key:
  "spec_shortHash
   [0x02, 0x79, 0xbe, 0x66, 0x7e, 0xf9, 0xdc, 0xbb, 0xac, 0x55, 0xa0, 0x62, 0x95, 0xce, 0x87,
    0x0b, 0x07, 0x02, 0x9b, 0xfc, 0xdb, 0x2d, 0xce, 0x28, 0xd9, 0x59, 0xf2, 0x81, 0x5b, 0x16,
    0xf8, 0x17, 0x98] =
   [0x75, 0x1e, 0x76, 0xe8, 0x19, 0x91, 0x96, 0xd4, 0x54, 0x94, 0x1c, 0x45, 0xd1, 0xb3, 0xa3,
    0x23, 0xf1, 0x43, 0x3b, 0xd6]"
  by (simp only: spec_shortHash_def sha256_key ripemd160_sha256_key)

lemma spec_checksum_versioned:
  "spec_checksum
   [0x90, 0x75, 0x1e, 0x76, 0xe8, 0x19, 0x91, 0x96, 0xd4, 0x54, 0x94, 0x1c, 0x45, 0xd1, 0xb3,
    0xa3, 0x23, 0xf1, 0x43, 0x3b, 0xd6] = [0x96]"
  by (simp add: spec_checksum_def spec_checksumSize_def spec_shortHash_def
        sha256_spec_versioned ripemd160_spec_versioned sha256_spec_inner ripemd160_spec_inner)

lemma spec_encode_key:
  "spec_encode
   [0x02, 0x79, 0xbe, 0x66, 0x7e, 0xf9, 0xdc, 0xbb, 0xac, 0x55, 0xa0, 0x62, 0x95, 0xce, 0x87,
    0x0b, 0x07, 0x02, 0x9b, 0xfc, 0xdb, 0x2d, 0xce, 0x28, 0xd9, 0x59, 0xf2, 0x81, 0x5b, 0x16,
    0xf8, 0x17, 0x98] = bs58_encode
   [0x90, 0x75, 0x1e, 0x76, 0xe8, 0x19, 0x91, 0x96, 0xd4, 0x54, 0x94, 0x1c, 0x45, 0xd1, 0xb3,
    0xa3, 0x23, 0xf1, 0x43, 0x3b, 0xd6, 0x96]"
  by (simp add: spec_encode_def spec_versionByte_def spec_shortHash_key spec_checksum_versioned)

lemma bs58_encode_eval:
  assumes "source \<noteq> []" "hd source \<noteq> 0"
    and "from_base 256 (map unat source) = from_base 58 ds"
    and "\<forall>d\<in>set ds. d < 58" "ds \<noteq> [] \<longrightarrow> hd ds \<noteq> 0"
    and "map (\<lambda>d. ALPHABET ! d) ds = a"
  shows "bs58_encode source = a"
proof -
  have "to_base 58 (from_base 256 (map unat source)) = ds"
    using to_from_base [of 58 ds] assms(3,4,5) by simp
  then show ?thesis
    using assms(1,2,6) by (cases source) (simp_all add: bs58_encode_def)
qed

lemma bs58_encode_key:
  "bs58_encode
   [0x90, 0xfc, 0x14, 0x50, 0x87, 0x06, 0x63, 0x36, 0xa2, 0xd6, 0x6d, 0x44, 0x66, 0x50, 0x55,
    0xa3, 0x7c, 0x63, 0xfd, 0xab, 0x02, 0xa3] =
   js ''gMKsxPEYskXFuJMYBJd3S1VFwdaAb4''"
proof (rule bs58_encode_eval)
  show "from_base 256 (map unat
     ([0x90, 0xfc, 0x14, 0x50, 0x87, 0x06, 0x63, 0x36, 0xa2, 0xd6, 0x6d, 0x44, 0x66, 0x50, 0x55,
    0xa3, 0x7c, 0x63, 0xfd, 0xab, 0x02, 0xa3] :: byte list)) =
    from_base 58
     [39, 20, 18, 50, 55, 22, 13, 31, 50, 43, 30, 14, 52, 17, 20, 31, 10, 17, 36, 2, 25, 0, 28,
      14, 54, 36, 33, 9, 34, 3]"
    by (simp add: from_base_def)
  show "map (\<lambda>d. ALPHABET ! d)
     [39, 20, 18, 50, 55, 22, 13, 31, 50, 43, 30, 14, 52, 17, 20, 31, 10, 17, 36, 2, 25, 0, 28,
      14, 54, 36, 33, 9, 34, 3] =
    js ''gMKsxPEYskXFuJMYBJd3S1VFwdaAb4''"
    by (simp add: ALPHABET_def js_def)
qed simp_all

lemma bs58_encode_spec_key:
  "bs58_encode
   [0x90, 0x75, 0x1e, 0x76, 0xe8, 0x19, 0x91, 0x96, 0xd4, 0x54, 0x94, 0x1c, 0x45, 0xd1, 0xb3,
    0xa3, 0x23, 0xf1, 0x43, 0x3b, 0xd6, 0x96] =
   js ''gD2YP6Q7g4g4STVoe2xwqPGnKYeDmw''"
proof (rule bs58_encode_eval)
  show "from_base 256 (map unat
     ([0x90, 0x75, 0x1e, 0x76, 0xe8, 0x19, 0x91, 0x96, 0xd4, 0x54, 0x94, 0x1c, 0x45, 0xd1, 0xb3,
    0xa3, 0x23, 0xf1, 0x43, 0x3b, 0xd6, 0x96] :: byte list)) =
    from_base 58
     [39, 12, 1, 31, 22, 5, 23, 6, 39, 3, 39, 3, 25, 26, 28, 46, 37, 1, 55, 54, 48, 22, 15, 45,
      18, 31, 37, 12, 44, 54]"
    by (simp add: from_base_def)
  show "map (\<lambda>d. ALPHABET ! d)
     [39, 12, 1, 31, 22, 5, 23, 6, 39, 3, 39, 3, 25, 26, 28, 46, 37, 1, 55, 54, 48, 22, 15, 45,
      18, 31, 37, 12, 44, 54] =
    js ''gD2YP6Q7g4g4STVoe2xwqPGnKYeDmw''"
    by (simp add: ALPHABET_def js_def)
qed simp_all

lemma bs58_encode_inject:
  assumes "bs58_encode xs = bs58_encode ys"
  shows "xs = ys"
proof -
  have "bs58_decode (bs58_encode xs) = bs58_decode (bs58_encode ys)"
    by (simp only: assms)
  then show ?thesis
    by (simp only: bs58_roundtrip sum.inject)
qed

section \<open>The claims\<close>

text \<open>
  Claim C1. For every byte sequence, \<open>createHash\<close> should return
  \<open>ripemd160 (sha256 bytes)\<close>, computed over the raw bytes. The module does not: it hashes
  the UTF-8 re-encoding of the decoded bytes, and feeds RIPEMD-160 the 64 characters of
  the hexadecimal digest instead of its 32 bytes. On the compressed public key of the
  private key 1 (the generator of secp256k1) the two values differ.
\<close>

theorem createHash_generator_key:
  "createHash (Buffer_from_hex
     (js ''0279be667ef9dcbbac55a06295ce870b07029bfcdb2dce28d959f2815b16f81798'')) =
   Inr (Buffer_from_hex (js ''fc145087066336a2d66d44665055a37c63fdab02'')) \<and>
   ripemd160 (sha256 (Buffer_from_hex
     (js ''0279be667ef9dcbbac55a06295ce870b07029bfcdb2dce28d959f2815b16f81798''))) =
   Buffer_from_hex (js ''751e76e8199196d454941c45d1b3a323f1433bd6'') \<and>
   createHash (Buffer_from_hex
     (js ''0279be667ef9dcbbac55a06295ce870b07029bfcdb2dce28d959f2815b16f81798'')) \<noteq>
   Inr (ripemd160 (sha256 (Buffer_from_hex
     (js ''0279be667ef9dcbbac55a06295ce870b07029bfcdb2dce28d959f2815b16f81798''))))"
proof -
  have k: "Buffer_from_hex
      (js ''0279be667ef9dcbbac55a06295ce870b07029bfcdb2dce28d959f2815b16f81798'') =
     [0x02, 0x79, 0xbe, 0x66, 0x7e, 0xf9, 0xdc, 0xbb, 0xac, 0x55, 0xa0, 0x62, 0x95, 0xce, 0x87,
    0x0b, 0x07, 0x02, 0x9b, 0xfc, 0xdb, 0x2d, 0xce, 0x28, 0xd9, 0x59, 0xf2, 0x81, 0x5b, 0x16,
    0xf8, 0x17, 0x98]"
    by (simp add: js_def hex_value_def)
  have r: "Buffer_from_hex (js ''fc145087066336a2d66d44665055a37c63fdab02'') =
     [0xfc, 0x14, 0x50, 0x87, 0x06, 0x63, 0x36, 0xa2, 0xd6, 0x6d, 0x44, 0x66, 0x50, 0x55, 0xa3,
    0x7c, 0x63, 0xfd, 0xab, 0x02]"
    by (simp add: js_def hex_value_def)
  have r0: "Buffer_from_hex (js ''751e76e8199196d454941c45d1b3a323f1433bd6'') =
     [0x75, 0x1e, 0x76, 0xe8, 0x19, 0x91, 0x96, 0xd4, 0x54, 0x94, 0x1c, 0x45, 0xd1, 0xb3, 0xa3,
    0x23, 0xf1, 0x43, 0x3b, 0xd6]"
    by (simp add: js_def hex_value_def)
  have ne: "[0xfc, 0x14, 0x50, 0x87, 0x06, 0x63, 0x36, 0xa2, 0xd6, 0x6d, 0x44, 0x66, 0x50, 0x55, 0xa3,
    0x7c, 0x63, 0xfd, 0xab, 0x02] \<noteq>
     ([0x75, 0x1e, 0x76, 0xe8, 0x19, 0x91, 0x96, 0xd4, 0x54, 0x94, 0x1c, 0x45, 0xd1, 0xb3, 0xa3,
    0x23, 0xf1, 0x43, 0x3b, 0xd6] :: byte list)"
    by simp
  show ?thesis
    using ne by (simp only: k r r0 createHash_key sha256_key ripemd160_sha256_key sum.inject simp_thms)
qed

text \<open>
  Claim C2. For every public-key byte sequence \<open>pk\<close>, \<open>getAddress pk\<close> should be the
  Base58 encoding of the version byte \<open>0x90\<close>, then the short hash of \<open>pk\<close>, then the
  checksum of the two, where the short hash is RIPEMD-160 of SHA-256 of the raw bytes and
  the checksum is the first byte of the short hash of the short hash: \<open>spec_encode pk\<close>.
  The module has this layout (\<open>getAddress_layout\<close>), but with its own \<open>createHash\<close> in the
  place of the short hash, and \<open>createHash\<close> is not the short hash of the raw bytes. On
  the compressed public key of the private key 1 the module's address and the specified
  one differ, and no checksum at all makes the module's address the encoding of the
  version byte and the short hash of the key.
\<close>

theorem getAddress_generator_key:
  "getAddress (Buffer_from_hex
     (js ''0279be667ef9dcbbac55a06295ce870b07029bfcdb2dce28d959f2815b16f81798'')) =
   Inr (js ''gMKsxPEYskXFuJMYBJd3S1VFwdaAb4'') \<and>
   spec_encode (Buffer_from_hex
     (js ''0279be667ef9dcbbac55a06295ce870b07029bfcdb2dce28d959f2815b16f81798'')) =
   js ''gD2YP6Q7g4g4STVoe2xwqPGnKYeDmw'' \<and>
   getAddress (Buffer_from_hex
     (js ''0279be667ef9dcbbac55a06295ce870b07029bfcdb2dce28d959f2815b16f81798'')) \<noteq>
   Inr (spec_encode (Buffer_from_hex
     (js ''0279be667ef9dcbbac55a06295ce870b07029bfcdb2dce28d959f2815b16f81798''))) \<and>
   (\<forall>chk. getAddress (Buffer_from_hex
     (js ''0279be667ef9dcbbac55a06295ce870b07029bfcdb2dce28d959f2815b16f81798'')) \<noteq>
   Inr (bs58_encode ([spec_versionByte] @ spec_shortHash (Buffer_from_hex
     (js ''0279be667ef9dcbbac55a06295ce870b07029bfcdb2dce28d959f2815b16f81798'')) @ chk)))"
proof -
  have k: "Buffer_from_hex
      (js ''0279be667ef9dcbbac55a06295ce870b07029bfcdb2dce28d959f2815b16f81798'') =
     [0x02, 0x79, 0xbe, 0x66, 0x7e, 0xf9, 0xdc, 0xbb, 0xac, 0x55, 0xa0, 0x62, 0x95, 0xce, 0x87,
      0x0b, 0x07, 0x02, 0x9b, 0xfc, 0xdb, 0x2d, 0xce, 0x28, 0xd9, 0x59, 0xf2, 0x81, 0x5b, 0x16,
      0xf8, 0x17, 0x98]"
    by (simp add: js_def hex_value_def)
  have a: "getAddress
     [0x02, 0x79, 0xbe, 0x66, 0x7e, 0xf9, 0xdc, 0xbb, 0xac, 0x55, 0xa0, 0x62, 0x95, 0xce, 0x87,
      0x0b, 0x07, 0x02, 0x9b, 0xfc, 0xdb, 0x2d, 0xce, 0x28, 0xd9, 0x59, 0xf2, 0x81, 0x5b, 0x16,
      0xf8, 0x17, 0x98] =
     Inr (js ''gMKsxPEYskXFuJMYBJd3S1VFwdaAb4'')"
    by (simp only: getAddress_key bs58_encode_key)
  have s: "spec_encode
     [0x02, 0x79, 0xbe, 0x66, 0x7e, 0xf9, 0xdc, 0xbb, 0xac, 0x55, 0xa0, 0x62, 0x95, 0xce, 0x87,
      0x0b, 0x07, 0x02, 0x9b, 0xfc, 0xdb, 0x2d, 0xce, 0x28, 0xd9, 0x59, 0xf2, 0x81, 0x5b, 0x16,
      0xf8, 0x17, 0x98] =
     js ''gD2YP6Q7g4g4STVoe2xwqPGnKYeDmw''"
    by (simp only: spec_encode_key bs58_encode_spec_key)
  have "js ''gMKsxPEYskXFuJMYBJd3S1VFwdaAb4'' \<noteq> js ''gD2YP6Q7g4g4STVoe2xwqPGnKYeDmw''"
    by (simp add: js_def)
  then have ne: "getAddress
     [0x02, 0x79, 0xbe, 0x66, 0x7e, 0xf9, 0xdc, 0xbb, 0xac, 0x55, 0xa0, 0x62, 0x95, 0xce, 0x87,
      0x0b, 0x07, 0x02, 0x9b, 0xfc, 0xdb, 0x2d, 0xce, 0x28, 0xd9, 0x59, 0xf2, 0x81, 0x5b, 0x16,
      0xf8, 0x17, 0x98] \<noteq>
     Inr (spec_encode
     [0x02, 0x79, 0xbe, 0x66, 0x7e, 0xf9, 0xdc, 0xbb, 0xac, 0x55, 0xa0, 0x62, 0x95, 0xce, 0x87,
      0x0b, 0x07, 0x02, 0x9b, 0xfc, 0xdb, 0x2d, 0xce, 0x28, 0xd9, 0x59, 0xf2, 0x81, 0x5b, 0x16,
      0xf8, 0x17, 0x98])"
    by (simp only: a s sum.inject simp_thms)
  have any: "getAddress
     [0x02, 0x79, 0xbe, 0x66, 0x7e, 0xf9, 0xdc, 0xbb, 0xac, 0x55, 0xa0, 0x62, 0x95, 0xce, 0x87,
      0x0b, 0x07, 0x02, 0x9b, 0xfc, 0xdb, 0x2d, 0xce, 0x28, 0xd9, 0x59, 0xf2, 0x81, 0x5b, 0x16,
      0xf8, 0x17, 0x98] \<noteq>
     Inr (bs58_encode ([spec_versionByte] @ spec_shortHash
     [0x02, 0x79, 0xbe, 0x66, 0x7e, 0xf9, 0xdc, 0xbb, 0xac, 0x55, 0xa0, 0x62, 0x95, 0xce, 0x87,
      0x0b, 0x07, 0x02, 0x9b, 0xfc, 0xdb, 0x2d, 0xce, 0x28, 0xd9, 0x59, 0xf2, 0x81, 0x5b, 0x16,
      0xf8, 0x17, 0x98] @ chk))" for chk
  proof
    assume "getAddress
     [0x02, 0x79, 0xbe, 0x66, 0x7e, 0xf9, 0xdc, 0xbb, 0xac, 0x55, 0xa0, 0x62, 0x95, 0xce, 0x87,
      0x0b, 0x07, 0x02, 0x9b, 0xfc, 0xdb, 0x2d, 0xce, 0x28, 0xd9, 0x59, 0xf2, 0x81, 0x5b, 0x16,
      0xf8, 0x17, 0x98] =
     Inr (bs58_encode ([spec_versionByte] @ spec_shortHash
     [0x02, 0x79, 0xbe, 0x66, 0x7e, 0xf9, 0xdc, 0xbb, 0xac, 0x55, 0xa0, 0x62, 0x95, 0xce, 0x87,
      0x0b, 0x07, 0x02, 0x9b, 0xfc, 0xdb, 0x2d, 0xce, 0x28, 0xd9, 0x59, 0xf2, 0x81, 0x5b, 0x16,
      0xf8, 0x17, 0x98] @ chk))"
    then have "bs58_encode
     [0x90, 0xfc, 0x14, 0x50, 0x87, 0x06, 0x63, 0x36, 0xa2, 0xd6, 0x6d, 0x44, 0x66, 0x50, 0x55,
      0xa3, 0x7c, 0x63, 0xfd, 0xab, 0x02, 0xa3] =
     bs58_encode (0x90 #
     [0x75, 0x1e, 0x76, 0xe8, 0x19, 0x91, 0x96, 0xd4, 0x54, 0x94, 0x1c, 0x45, 0xd1, 0xb3, 0xa3,
      0x23, 0xf1, 0x43, 0x3b, 0xd6] @ chk)"
      by (simp only: getAddress_key spec_shortHash_key spec_versionByte_def sum.inject
            append_Cons append_Nil)
    then have "[0x90, 0xfc, 0x14, 0x50, 0x87, 0x06, 0x63, 0x36, 0xa2, 0xd6, 0x6d, 0x44, 0x66, 0x50, 0x55,
      0xa3, 0x7c, 0x63, 0xfd, 0xab, 0x02, 0xa3] =
     0x90 #
     [0x75, 0x1e, 0x76, 0xe8, 0x19, 0x91, 0x96, 0xd4, 0x54, 0x94, 0x1c, 0x45, 0xd1, 0xb3, 0xa3,
      0x23, 0xf1, 0x43, 0x3b, 0xd6] @ chk"
      by (rule bs58_encode_inject)
    then show False
      by simp
  qed
  show ?thesis
    unfolding k by (intro conjI allI a s ne any)
qed

text \<open>
  Claim C3. For every public-key byte sequence \<open>pk\<close>, the address that \<open>getAddress\<close>
  produces validates: \<open>validateAddress (getAddress pk)\<close> returns true.
\<close>

theorem validateAddress_getAddress:
  "\<exists>a. getAddress pk = Inr a \<and> validateAddress a = Inr True"
proof -
  obtain h where h: "createHash pk = Inr h" using createHash_total by blast
  obtain c where c: "createChecksum (0x90 # h) = Inr [c]" using createChecksum_total by blast
  have a: "getAddress pk = Inr (bs58_encode (0x90 # h @ [c]))"
    using h c by (simp add: getAddress_def Buffer_from_array_def)
  have "validateAddress (bs58_encode (0x90 # h @ [c])) = Inr True"
    using c slice_last [of "0x90 # h" c]
    by (simp add: validateAddress_def bs58_roundtrip Buffer_index_def slice_payload
        Buffer_from_array_def Buffer_compare_eq del: Buffer_compare.simps)
  with a show ?thesis by simp
qed

text \<open>
  Claim C4, as amended. \<open>validateAddress\<close> returns false for the empty string. For a
  string with a character (a code unit below 256) outside the Base58 alphabet it does not
  return false: the decoder's \<^verbatim>\<open>Error('Non-base58 character')\<close> reaches the caller. For
  every string over the alphabet it returns a boolean. (What it returns for a one-byte
  payload is the subject of claim C10.)
\<close>

theorem validateAddress_outcomes:
  "validateAddress [] = Inr False \<and>
   ((\<exists>c\<in>set a. c < 0x100 \<and> c \<notin> set ALPHABET) \<longrightarrow>
      validateAddress a = Inl (Error ''Non-base58 character'')) \<and>
   (set a \<subseteq> set ALPHABET \<longrightarrow> (\<exists>v. validateAddress a = Inr v))"
proof (intro conjI impI)
  show "validateAddress [] = Inr False" by (rule validateAddress_empty)
next
  assume "\<exists>c\<in>set a. c < 0x100 \<and> c \<notin> set ALPHABET"
  then have "b58_digits a = None" "a \<noteq> []" by (auto simp: b58_digits_None)
  then show "validateAddress a = Inl (Error ''Non-base58 character'')"
    by (simp add: validateAddress_def bs58_decode_def)
next
  assume "set a \<subseteq> set ALPHABET"
  then have "b58_digits a \<noteq> None" by (auto simp: b58_digits_None)
  then have "\<exists>k. bs58_decode a = Inr k"
    by (cases "a = []") (auto simp: bs58_decode_def Let_def)
  then obtain k where "bs58_decode a = Inr k" ..
  then show "\<exists>v. validateAddress a = Inr v" by (rule validateAddress_decoded)
qed

theorem validateAddress_outcomes_witness:
  "(\<exists>c\<in>set (js ''0''). c < 0x100 \<and> c \<notin> set ALPHABET) \<and>
   validateAddress (js ''0'') = Inl (Error ''Non-base58 character'') \<and>
   set (js ''2'') \<subseteq> set ALPHABET \<and>
   (\<exists>v. validateAddress (js ''2'') = Inr v) \<and>
   validateAddress [] = Inr False"
proof -
  have a: "\<exists>c\<in>set (js ''0''). c < 0x100 \<and> c \<notin> set ALPHABET"
    by (simp add: js_def ALPHABET_def)
  have b: "set (js ''2'') \<subseteq> set ALPHABET"
    by (simp add: js_def ALPHABET_def)
  show ?thesis
    using a b validateAddress_outcomes [of "js ''0''"] validateAddress_outcomes [of "js ''2''"]
    by blast
qed

text \<open>The claim as stated fails on the string of the spec's own negative case.\<close>

theorem validateAddress_throws:
  "validateAddress (js ''not-base58-!!!'') = Inl (Error ''Non-base58 character'')"
  by (simp add: validateAddress_def bs58_decode_def js_def ALPHABET_def)

text \<open>
  Claim C5, as amended. \<open>recover\<close> never throws and has no error variant: when the
  recovery id is absent, or the library throws while reconstructing or encoding the key,
  it returns the string \<^verbatim>\<open>"invalid"\<close> as an ordinary result; otherwise it returns the
  compressed key in hex.
\<close>

theorem recover_sentinel:
  "(\<exists>h. recover ec data sig = Inr h) \<and>
   (recoveryParam sig = None \<longrightarrow> recover ec data sig = Inr (js ''invalid'')) \<and>
   (\<forall>j e. recoveryParam sig = Some j \<and> EC_recoverPubKey ec data sig j = Inl e \<longrightarrow>
      recover ec data sig = Inr (js ''invalid'')) \<and>
   (\<forall>j p e. recoveryParam sig = Some j \<and> EC_recoverPubKey ec data sig j = Inr p \<and>
      point_encodeCompressed_hex ec p = Inl e \<longrightarrow>
      recover ec data sig = Inr (js ''invalid'')) \<and>
   (\<forall>j p h. recoveryParam sig = Some j \<and> EC_recoverPubKey ec data sig j = Inr p \<and>
      point_encodeCompressed_hex ec p = Inr h \<longrightarrow>
      recover ec data sig = Inr h)"
  by (auto simp: recover_def split: option.splits sum.splits)

theorem recover_sentinel_witness:
  "recover ec_failing (js ''00'') \<lparr>sig_r = 1, sig_s = 1, recoveryParam = None\<rparr> = Inr (js ''invalid'') \<and>
   recover ec_failing (js ''00'') \<lparr>sig_r = 1, sig_s = 1, recoveryParam = Some 0\<rparr> = Inr (js ''invalid'') \<and>
   recover (ec_total\<lparr>point_encodeCompressed_hex := \<lambda>p. Inl (Error ''invalid point'')\<rparr>)
     (js ''00'') \<lparr>sig_r = 1, sig_s = 1, recoveryParam = Some 0\<rparr> = Inr (js ''invalid'') \<and>
   recover ec_total (js ''00'') \<lparr>sig_r = 1, sig_s = 1, recoveryParam = Some 0\<rparr> = Inr (js ''00'')"
proof -
  let ?none = "\<lparr>sig_r = 1, sig_s = 1, recoveryParam = None\<rparr>"
  let ?some = "\<lparr>sig_r = 1, sig_s = 1, recoveryParam = Some 0\<rparr>"
  let ?half = "ec_total\<lparr>point_encodeCompressed_hex := \<lambda>p. Inl (Error ''invalid point'')\<rparr>"
  have 1: "recover ec_failing (js ''00'') ?none = Inr (js ''invalid'')"
    by (rule recover_sentinel [THEN conjunct2, THEN conjunct1, rule_format]) simp
  have 2: "recover ec_failing (js ''00'') ?some = Inr (js ''invalid'')"
    by (rule recover_sentinel [THEN conjunct2, THEN conjunct2, THEN conjunct1, rule_format,
          where j = 0 and e = "Error ''invalid point''"])
       (simp add: ec_failing_def)
  have 3: "recover ?half (js ''00'') ?some = Inr (js ''invalid'')"
    by (rule recover_sentinel [THEN conjunct2, THEN conjunct2, THEN conjunct2, THEN conjunct1,
          rule_format, where j = 0 and p = "js ''00''" and e = "Error ''invalid point''"])
       (simp add: ec_total_def)
  have 4: "recover ec_total (js ''00'') ?some = Inr (js ''00'')"
    by (rule recover_sentinel [THEN conjunct2, THEN conjunct2, THEN conjunct2, THEN conjunct2,
          rule_format, where j = 0 and p = "js ''00''"])
       (simp add: ec_total_def)
  show ?thesis using 1 2 3 4 by simp
qed

text \<open>The claim as stated fails on a signature without a recovery id.\<close>

theorem recover_returns_invalid:
  "recover ec_failing (js ''00'') \<lparr>sig_r = 1, sig_s = 1, recoveryParam = None\<rparr> = Inr (js ''invalid'')"
  by (simp add: recover_def)

text \<open>
  Claim C6, as amended. Let \<open>n\<close> be the first 16 hex characters of the SHA-256 digest of
  the input, read as an integer below \<open>2 ^ 64\<close>. Then \<open>cardNumber\<close> returns
  \<open>to_double (10 ^ 15 + to_double n mod (9 * 10 ^ 15))\<close>: \<open>n\<close> is first rounded to a double.
  The result lies between \<open>10 ^ 15\<close> and \<open>10 ^ 16\<close>, is at most \<open>10 ^ 16 - 1\<close> unless
  \<open>n = 8999999999999999\<close>, and needs no second rounding when \<open>2 ^ 53 \<le> n\<close>. On a string
  that \<open>SHA256\<close> cannot encode, one with an unpaired surrogate, \<open>cardNumber\<close> throws
  \<^verbatim>\<open>URIError\<close>.
\<close>

theorem cardNumber_double:
  "(\<forall>hash. SHA256 input = Inr hash \<longrightarrow>
      (let n = from_base 256 (map unat (take 8 hash));
           v = to_double (10 ^ 15 + to_double n mod (9 * 10 ^ 15))
       in n < 2 ^ 64 \<and> cardNumber input = Inr (Number v) \<and>
          10 ^ 15 \<le> v \<and> v \<le> 10 ^ 16 \<and>
          (n \<noteq> 8999999999999999 \<longrightarrow> v \<le> 10 ^ 16 - 1) \<and>
          (2 ^ 53 \<le> n \<longrightarrow> v = 10 ^ 15 + to_double n mod (9 * 10 ^ 15)))) \<and>
   (\<forall>e. SHA256 input = Inl e \<longrightarrow> e = URIError \<and> cardNumber input = Inl URIError)"
proof (intro conjI allI impI)
  fix hash
  assume "SHA256 input = Inr hash"
  then show "let n = from_base 256 (map unat (take 8 hash));
           v = to_double (10 ^ 15 + to_double n mod (9 * 10 ^ 15))
       in n < 2 ^ 64 \<and> cardNumber input = Inr (Number v) \<and>
          10 ^ 15 \<le> v \<and> v \<le> 10 ^ 16 \<and>
          (n \<noteq> 8999999999999999 \<longrightarrow> v \<le> 10 ^ 16 - 1) \<and>
          (2 ^ 53 \<le> n \<longrightarrow> v = 10 ^ 15 + to_double n mod (9 * 10 ^ 15))"
    by (rule cardNumber_digest)
next
  fix e
  assume e: "SHA256 input = Inl e"
  then show "e = URIError"
    by (auto simp: SHA256_def split: sum.splits dest: Utf8_parse_error)
  with e show "cardNumber input = Inl URIError"
    by (simp add: cardNumber_def)
qed

theorem cardNumber_double_witness:
  "SHA256 [] =
     Inr (Buffer_from_hex (js ''e3b0c44298fc1c149afbf4c8996fb92427ae41e4649b934ca495991b7852b855'')) \<and>
   from_base 256 (map unat (take 8 (Buffer_from_hex
     (js ''e3b0c44298fc1c149afbf4c8996fb92427ae41e4649b934ca495991b7852b855'')))) = 0xe3b0c44298fc1c14 \<and>
   to_double 0xe3b0c44298fc1c14 = 0xe3b0c44298fc2000 \<and>
   cardNumber [] = Inr (Number 9829232824262656) \<and>
   SHA256 [0xD800] = Inl URIError \<and> cardNumber [0xD800] = Inl URIError"
proof -
  let ?digest = "Buffer_from_hex (js ''e3b0c44298fc1c149afbf4c8996fb92427ae41e4649b934ca495991b7852b855'')"
  have h: "SHA256 [] = Inr ?digest"
    by (simp only: SHA256_def Utf8_parse.simps sum.case sha256_empty)
  have n: "from_base 256 (map unat (take 8 ?digest)) = 0xe3b0c44298fc1c14"
    by (simp add: from_base_def js_def hex_value_def)
  have b: "bit_length 0xe3b0c44298fc1c14 = 64" "bit_length 9829232824262656 = 54"
    by (simp_all add: bit_length.simps)
  have d: "to_double 0xe3b0c44298fc1c14 = 0xe3b0c44298fc2000"
          "to_double 9829232824262656 = 9829232824262656"
    by (simp_all add: to_double_def b)
  have "cardNumber [] = Inr (Number 9829232824262656)"
    using cardNumber_double [THEN conjunct1, rule_format, OF h] by (simp only: Let_def n d) simp
  moreover have u: "SHA256 [0xD800] = Inl URIError"
    by (simp add: SHA256_def is_low_def is_high_def)
  moreover have "cardNumber [0xD800] = Inl URIError"
    using cardNumber_double [THEN conjunct2, rule_format, OF u] by simp
  ultimately show ?thesis using h n d by simp
qed

text \<open>
  The claim as stated fails on the empty string: the digest starts with
  \<^verbatim>\<open>e3b0c44298fc1c14\<close>, the exact formula gives 9829232824261652, and the module
  returns 9829232824262656.
\<close>

theorem cardNumber_not_exact:
  "take 16 (Hex_stringify (sha256 [])) = js ''e3b0c44298fc1c14'' \<and>
   from_base 16 (hex_prefix (js ''e3b0c44298fc1c14'')) = 0xe3b0c44298fc1c14 \<and>
   (10 ^ 15 + 0xe3b0c44298fc1c14 mod (9 * 10 ^ 15) :: nat) = 9829232824261652 \<and>
   cardNumber [] = Inr (Number 9829232824262656)"
proof -
  have h: "take 16 (Hex_stringify (sha256 [])) = js ''e3b0c44298fc1c14''"
    by (simp add: sha256_empty codec_eval js_def hex_value_def)
  have p: "hex_prefix (js ''e3b0c44298fc1c14'') = [14, 3, 11, 0, 12, 4, 4, 2, 9, 8, 15, 12, 1, 12, 1, 4]"
    by (simp add: js_def hex_value_def)
  have n: "from_base 16 (hex_prefix (js ''e3b0c44298fc1c14'')) = 0xe3b0c44298fc1c14"
    by (simp add: p from_base_def)
  have b: "bit_length 0xe3b0c44298fc1c14 = 64" "bit_length 9829232824262656 = 54"
    by (simp_all add: bit_length.simps)
  have d: "to_double 0xe3b0c44298fc1c14 = 0xe3b0c44298fc2000"
          "to_double 9829232824262656 = 9829232824262656"
    by (simp_all add: to_double_def b)
  have "parseInt_hex (js ''e3b0c44298fc1c14'') = Number 0xe3b0c44298fc2000"
    using n d(1) by (simp add: parseInt_hex_def p)
  then have "cardNumber [] = Inr (Number 9829232824262656)"
    by (simp add: cardNumber_def SHA256_def h d(2))
  with h n show ?thesis by simp
qed

text \<open>
  Claim C7, as amended. \<open>verify\<close> is the library's \<^verbatim>\<open>EC.verify\<close> on the decoded key and
  nothing more: it returns the boolean the library returns, and throws what the library
  throws.
\<close>

theorem verify_propagates:
  "verify ec data sig pubKey = EC_verify ec data sig (Buffer_from_hex pubKey) \<and>
   (verify ec data sig pubKey = Inl e) = (EC_verify ec data sig (Buffer_from_hex pubKey) = Inl e) \<and>
   (verify ec data sig pubKey = Inr b) = (EC_verify ec data sig (Buffer_from_hex pubKey) = Inr b)"
  by (simp add: verify_def)

text \<open>The claim as stated fails on a public key that is not an encoded point, for which
  the library throws.\<close>

theorem verify_throws:
  "verify ec_failing (js ''00'') \<lparr>sig_r = 1, sig_s = 1, recoveryParam = Some 0\<rparr> (js '''') =
   Inl (Error ''Unknown point format'')"
  by (simp add: verify_def ec_failing_def)




text \<open>
  Claim C9. Two byte sequences with the same UTF-8 decoding have the same hash and the
  same address: both depend on the input only through \<^verbatim>\<open>bytes.toString('utf8')\<close>. The
  witness is a pair of distinct ill-formed sequences that both decode to U+FFFD.
\<close>

theorem same_text_same_address:
  "Buffer_toString_utf8 b1 = Buffer_toString_utf8 b2 \<Longrightarrow>
   createHash b1 = createHash b2 \<and> getAddress b1 = getAddress b2"
  by (simp add: createHash_def getAddress_def)

theorem same_text_same_address_witness:
  "[0xFF] \<noteq> [0xFE :: byte] \<and> Buffer_toString_utf8 [0xFF] = Buffer_toString_utf8 [0xFE] \<and>
   createHash [0xFF] = createHash [0xFE] \<and> getAddress [0xFF] = getAddress [0xFE]"
proof -
  have e: "Buffer_toString_utf8 [0xFF] = Buffer_toString_utf8 [0xFE]" by simp
  show ?thesis using e same_text_same_address [OF e] by simp
qed

text \<open>
  Claim C10. When an address decodes to the single byte \<open>b\<close>, \<open>validateAddress\<close> reads
  \<open>b\<close> as the version and again as the stored checksum, over an empty payload: it
  returns true exactly when the checksum of \<open>[b]\<close> is \<open>b\<close>. The address \<^verbatim>\<open>"L"\<close> is
  such a one: it decodes to the byte \<open>0x13\<close>, whose checksum is \<open>0x13\<close>, and validates.
\<close>

theorem validateAddress_one_byte:
  "bs58_decode a = Inr [b] \<Longrightarrow>
   Buffer_index [b] 0 = Some b \<and>
   Buffer_slice 1 (- CHECKSUM_SIZE) [b] = [] \<and>
   Buffer_slice_from (- CHECKSUM_SIZE) [b] = [b] \<and>
   (\<exists>c. createChecksum [b] = Inr [c] \<and> validateAddress a = Inr (c = b))"
proof -
  assume a: "bs58_decode a = Inr [b]"
  have s: "Buffer_index [b] 0 = Some b" "Buffer_slice 1 (- CHECKSUM_SIZE) [b] = []"
    "Buffer_slice_from (- CHECKSUM_SIZE) [b] = [b]"
    by (simp_all add: Buffer_index_def Buffer_slice_def Buffer_slice_from_def rel_index_def
        CHECKSUM_SIZE_def)
  obtain c where c: "createChecksum [b] = Inr [c]" using createChecksum_total by blast
  with a s have "validateAddress a = Inr (c = b)"
    by (simp add: validateAddress_def Buffer_from_array_def Buffer_compare_eq
        del: Buffer_compare.simps)
  with c s show ?thesis by simp
qed

theorem validateAddress_one_byte_witness:
  "bs58_decode (js ''L'') = Inr [0x13] \<and> createChecksum [0x13] = Inr [0x13] \<and>
   validateAddress (js ''L'') = Inr True"
proof -
  have d: "bs58_decode (js ''L'') = Inr [0x13]"
    by (simp add: bs58_decode_def js_def ALPHABET_def LEADER_def from_base_def to_base.simps)
  show ?thesis
    using d validateAddress_one_byte [OF d] createChecksum_0x13 by auto
qed

end
